theory Spec2Isabelle
  imports Complex_Main "HOL-Library.Multiset"
begin

section \<open>Conventions of the embedding\<close>

text \<open>
  The development embeds the distance engine of \<^verbatim>\<open>services/distance.py\<close> and the
  conversation handler of \<^verbatim>\<open>routers/testing.py\<close>.

  \<^item> A Python \<^verbatim>\<open>float\<close> is modelled by the real number it denotes; the rounding error
    of floating-point arithmetic and the values \<^verbatim>\<open>nan\<close> and \<^verbatim>\<open>inf\<close> are outside the model.
  \<^item> A Python \<^verbatim>\<open>str\<close> is a \<^typ>\<open>string\<close>; \<^verbatim>\<open>lower\<close> and \<^verbatim>\<open>strip\<close> are modelled on the
    ASCII range, where \<^verbatim>\<open>len\<close> is \<^const>\<open>length\<close>.
  \<^item> A raised exception is the value \<open>Inl msg\<close>, where \<open>msg\<close> is what \<^verbatim>\<open>str(e)\<close> gives;
    only subclasses of \<^verbatim>\<open>Exception\<close> are modelled.
  \<^item> Calls that leave the process (geocoding, extraction, the language models) are
    parameters. Those that may answer differently from call to call take and return
    a world state of an arbitrary type \<open>'w\<close>.
  \<^item> \<^verbatim>\<open>websocket.send_text\<close> appends to the list of messages the handler returns; it is
    taken not to raise.
\<close>

section \<open>Numbers\<close>

text \<open>\<^verbatim>\<open>round(x)\<close>: to the nearest integer, a tie going to the even neighbour.\<close>

definition py_round :: "real \<Rightarrow> int" where
  "py_round x =
     (let f = \<lfloor>x\<rfloor>; d = x - of_int f
      in if d < 1 / 2 then f
         else if 1 / 2 < d then f + 1
         else if even f then f else f + 1)"

text \<open>\<^verbatim>\<open>round(x, 1)\<close>: to one decimal place.\<close>

definition py_round1 :: "real \<Rightarrow> real" where
  "py_round1 x = of_int (py_round (x * 10)) / 10"

text \<open>\<^verbatim>\<open>x % y\<close> on floats, for a positive \<open>y\<close>: the result has the sign of \<open>y\<close>.\<close>

definition py_fmod :: "real \<Rightarrow> real \<Rightarrow> real" where
  "py_fmod x y = x - y * of_int \<lfloor>x / y\<rfloor>"

section \<open>GeographicCalculator\<close>

definition names8 :: "string list" where
  "names8 = [''N'', ''NE'', ''E'', ''SE'', ''S'', ''SW'', ''W'', ''NW'']"

definition names16 :: "string list" where
  "names16 = [''N'', ''NNE'', ''NE'', ''ENE'', ''E'', ''ESE'', ''SE'', ''SSE'',
              ''S'', ''SSW'', ''SW'', ''WSW'', ''W'', ''WNW'', ''NW'', ''NNW'']"

text \<open>
  \<^verbatim>\<open>_compass_label\<close>. The index is taken modulo the length of a non-empty list, so the
  read \<^verbatim>\<open>names[sector]\<close> is always in range.
\<close>

definition compass_label :: "real \<Rightarrow> int \<Rightarrow> string" where
  "compass_label bearing_degrees num_points =
     (let names = (if num_points = 8 then names8 else names16);
          sector = py_round (bearing_degrees / (360 / real (length names)))
                     mod int (length names)
      in names ! nat sector)"

text \<open>
  The geometry libraries: \<^verbatim>\<open>shapely\<close> (\<^verbatim>\<open>shape\<close>, \<^verbatim>\<open>nearest_points\<close>,
  \<^verbatim>\<open>representative_point\<close>) and \<^verbatim>\<open>geographiclib\<close> (\<^verbatim>\<open>Geodesic.WGS84.Inverse\<close>, of which
  the code reads \<^verbatim>\<open>s12\<close> and \<^verbatim>\<open>azi1\<close>). \<open>'d\<close> is the GeoJSON-like dictionary a geocoder
  returns, \<open>'g\<close> the geometry object built from it.
\<close>

record point =
  pt_x :: real
  pt_y :: real

record inverse_result =
  s12 :: real
  azi1 :: real

record ('d, 'g) geo_lib =
  shape :: "'d \<Rightarrow> string + 'g"
  nearest_points :: "'g \<Rightarrow> 'g \<Rightarrow> string + point \<times> point"
  representative_point :: "'g \<Rightarrow> string + point"
  Inverse :: "real \<Rightarrow> real \<Rightarrow> real \<Rightarrow> real \<Rightarrow> string + inverse_result"

definition azimuth_degrees ::
  "('d, 'g) geo_lib \<Rightarrow> real \<Rightarrow> real \<Rightarrow> real \<Rightarrow> real \<Rightarrow> string + real" where
  "azimuth_degrees lib lat1 lon1 lat2 lon2 =
     (case Inverse lib lat1 lon1 lat2 lon2 of
        Inl e \<Rightarrow> Inl e
      | Inr geod \<Rightarrow> Inr (py_fmod (azi1 geod + 360) 360))"

definition distance_and_direction ::
  "('d, 'g) geo_lib \<Rightarrow> 'd \<Rightarrow> 'd \<Rightarrow> real \<Rightarrow> int \<Rightarrow> string + real \<times> real \<times> string" where
  "distance_and_direction lib geometry1 geometry2 zero_threshold_m compass_points =
     (case shape lib geometry1 of Inl e \<Rightarrow> Inl e | Inr g1 \<Rightarrow>
      case shape lib geometry2 of Inl e \<Rightarrow> Inl e | Inr g2 \<Rightarrow>
      case nearest_points lib g1 g2 of Inl e \<Rightarrow> Inl e | Inr (p1, p2) \<Rightarrow>
      case Inverse lib (pt_y p1) (pt_x p1) (pt_y p2) (pt_x p2) of Inl e \<Rightarrow> Inl e | Inr geod \<Rightarrow>
      let distance_m = s12 geod in
      if zero_threshold_m \<le> distance_m then
        let bearing = py_fmod (azi1 geod + 360) 360
        in Inr (distance_m, bearing, compass_label bearing compass_points)
      else
        case representative_point lib g1 of Inl e \<Rightarrow> Inl e | Inr r1 \<Rightarrow>
        case representative_point lib g2 of Inl e \<Rightarrow> Inl e | Inr r2 \<Rightarrow>
        case azimuth_degrees lib (pt_y r1) (pt_x r1) (pt_y r2) (pt_x r2) of
          Inl e \<Rightarrow> Inl e | Inr bearing \<Rightarrow>
        case Inverse lib (pt_y r1) (pt_x r1) (pt_y r2) (pt_x r2) of Inl e \<Rightarrow> Inl e | Inr geod2 \<Rightarrow>
        Inr (s12 geod2, bearing, compass_label bearing compass_points))"

section \<open>PreciselyDistanceCalculator\<close>

record distance_result =
  address :: string
  distance_ft :: real
  direction :: string
  bearing_deg :: real

record failure_record =
  failed_address :: string
  error :: string

record distance_batch =
  batch_subject_address :: string
  distances :: "distance_result list"
  failed :: "failure_record list"

text \<open>
  The body of \<^verbatim>\<open>for address in surrounding_addresses\<close>, with the two accumulators
  \<^verbatim>\<open>results\<close> and \<^verbatim>\<open>failed\<close>. \<^verbatim>\<open>get_geometry\<close> is the geocoding service: \<open>None\<close> is its
  \<^verbatim>\<open>None\<close> (the service of the repository returns \<^verbatim>\<open>None\<close> or a non-empty dictionary, so
  \<^verbatim>\<open>not geometry\<close> is the test for \<open>None\<close>). \<^verbatim>\<open>distance_and_direction\<close> is called with its
  defaults, a threshold of 1.0 m and 8 compass points.
\<close>

fun distances_loop ::
  "(string \<Rightarrow> 'w \<Rightarrow> 'd option \<times> 'w) \<Rightarrow> ('d, 'g) geo_lib \<Rightarrow> 'd \<Rightarrow> string list \<Rightarrow>
   distance_result list \<Rightarrow> failure_record list \<Rightarrow> 'w \<Rightarrow>
   (distance_result list \<times> failure_record list) \<times> 'w" where
  "distances_loop get_geometry lib subject_geometry [] results fails w = ((results, fails), w)"
| "distances_loop get_geometry lib subject_geometry (addr # rest) results fails w =
     (case get_geometry addr w of
        (None, w') \<Rightarrow>
          distances_loop get_geometry lib subject_geometry rest results
            (fails @ [\<lparr>failed_address = addr, error = ''Geocoding failed''\<rparr>]) w'
      | (Some geometry, w') \<Rightarrow>
          (case distance_and_direction lib subject_geometry geometry 1 8 of
             Inl e \<Rightarrow>
               distances_loop get_geometry lib subject_geometry rest results
                 (fails @ [\<lparr>failed_address = addr,
                            error = ''Distance calculation failed: '' @ e\<rparr>]) w'
           | Inr (distance_m, bearing, dir) \<Rightarrow>
               distances_loop get_geometry lib subject_geometry rest
                 (results @ [\<lparr>address = addr,
                              distance_ft = py_round1 (distance_m * 3.28084),
                              direction = dir,
                              bearing_deg = py_round1 bearing\<rparr>])
                 fails w'))"

definition calculate_distances ::
  "(string \<Rightarrow> 'w \<Rightarrow> 'd option \<times> 'w) \<Rightarrow> ('d, 'g) geo_lib \<Rightarrow> string \<Rightarrow> string list \<Rightarrow> 'w \<Rightarrow>
   (string + distance_batch) \<times> 'w" where
  "calculate_distances get_geometry lib subject surrounding w =
     (case get_geometry subject w of
        (None, w') \<Rightarrow> (Inl (''Could not geocode subject address: '' @ subject), w')
      | (Some subject_geometry, w') \<Rightarrow>
          (case distances_loop get_geometry lib subject_geometry surrounding [] [] w' of
             ((results, fails), w'') \<Rightarrow>
               (Inr \<lparr>batch_subject_address = subject, distances = results, failed = fails\<rparr>,
                w'')))"

section \<open>Strings\<close>

text \<open>\<^verbatim>\<open>str.lower\<close> and \<^verbatim>\<open>str.upper\<close> on ASCII letters; other characters are kept.\<close>

definition lower_char :: "char \<Rightarrow> char" where
  "lower_char c =
     (let n = (of_char c :: nat) in if 65 \<le> n \<and> n \<le> 90 then char_of (n + 32) else c)"

definition upper_char :: "char \<Rightarrow> char" where
  "upper_char c =
     (let n = (of_char c :: nat) in if 97 \<le> n \<and> n \<le> 122 then char_of (n - 32) else c)"

definition lower :: "string \<Rightarrow> string" where
  "lower s = map lower_char s"

definition upper :: "string \<Rightarrow> string" where
  "upper s = map upper_char s"

text \<open>
  \<^verbatim>\<open>str.strip()\<close>: the ASCII characters for which \<^verbatim>\<open>str.isspace\<close> holds are removed from
  both ends.
\<close>

definition is_space :: "char \<Rightarrow> bool" where
  "is_space c =
     (let n = (of_char c :: nat) in n = 32 \<or> (9 \<le> n \<and> n \<le> 13) \<or> (28 \<le> n \<and> n \<le> 31))"

definition strip :: "string \<Rightarrow> string" where
  "strip s = rev (dropWhile is_space (rev (dropWhile is_space s)))"

text \<open>\<^verbatim>\<open>pattern in s\<close> on strings: \<open>pattern\<close> occurs in \<open>s\<close> as a contiguous substring.\<close>

fun starts_with :: "string \<Rightarrow> string \<Rightarrow> bool" where
  "starts_with s [] = True"
| "starts_with [] (p # ps) = False"
| "starts_with (c # cs) (p # ps) = (c = p \<and> starts_with cs ps)"

fun occurs_in :: "string \<Rightarrow> string \<Rightarrow> bool" where
  "occurs_in pattern [] = (pattern = [])"
| "occurs_in pattern (c # cs) = (starts_with (c # cs) pattern \<or> occurs_in pattern cs)"

text \<open>
  \<^verbatim>\<open>s.split(sep)\<close> for a one-character separator: the result is never empty, and the
  empty string gives one empty entry.
\<close>

fun split_on :: "char \<Rightarrow> string \<Rightarrow> string list" where
  "split_on sep [] = [[]]"
| "split_on sep (c # cs) =
     (if c = sep then [] # split_on sep cs
      else (case split_on sep cs of
              [] \<Rightarrow> [[c]]
            | p # ps \<Rightarrow> (c # p) # ps))"

text \<open>\<^verbatim>\<open>str(n)\<close> for a length: the decimal digits of a natural number.\<close>

definition digit_char :: "nat \<Rightarrow> char" where
  "digit_char d = char_of (48 + d)"

function str_nat :: "nat \<Rightarrow> string" where
  "str_nat n = (if n < 10 then [digit_char n] else str_nat (n div 10) @ [digit_char (n mod 10)])"
  by pat_completeness auto
termination
  by (relation "measure (\<lambda>n. n)") auto

text \<open>\<^verbatim>\<open>str(v)\<close> of an optional string, and the truth value Python gives it.\<close>

definition str_opt :: "string option \<Rightarrow> string" where
  "str_opt v = (case v of None \<Rightarrow> ''None'' | Some s \<Rightarrow> s)"

definition truthy :: "string option \<Rightarrow> bool" where
  "truthy v = (case v of None \<Rightarrow> False | Some s \<Rightarrow> s \<noteq> [])"

section \<open>Groundwater direction keywords\<close>

text \<open>
  The dictionary literal of \<^verbatim>\<open>extract_groundwater_direction\<close>. Its keys are distinct, and
  a Python dictionary is iterated in insertion order, so the loop visits the entries in
  the order of this list.
\<close>

definition direction_patterns :: "(string \<times> string) list" where
  "direction_patterns =
     [(''north'', ''N''), (''south'', ''S''), (''east'', ''E''), (''west'', ''W''),
      (''northeast'', ''NE''), (''northwest'', ''NW''),
      (''southeast'', ''SE''), (''southwest'', ''SW''),
      (''ne'', ''NE''), (''nw'', ''NW''), (''se'', ''SE''), (''sw'', ''SW''),
      (''n '', ''N''), (''e '', ''E''), (''s '', ''S''), (''w '', ''W'')]"

fun first_direction :: "(string \<times> string) list \<Rightarrow> string \<Rightarrow> string option" where
  "first_direction [] text_lower = None"
| "first_direction ((pattern, dir) # rest) text_lower =
     (if occurs_in pattern text_lower then Some dir else first_direction rest text_lower)"

definition extract_groundwater_direction :: "string \<Rightarrow> string option" where
  "extract_groundwater_direction txt = first_direction direction_patterns (lower txt)"

section \<open>Session and collaborators\<close>

record document =
  filename :: string
  doc_text :: string
  formatted :: string
  echo_summary :: "string option"

text \<open>
  What \<^verbatim>\<open>generate_section_streaming\<close> returns: the summarizers of the subject sections
  return a dictionary with the section and the parsed subject address, the others the
  text alone.
\<close>

datatype generation_result =
  SectionDict string "string option"
| SectionText string

text \<open>
  The session dictionary. A key that \<^verbatim>\<open>session.get\<close> may find missing is an option with
  \<open>None\<close> for the missing key; the keys of the initial dictionary are always present.
\<close>

record session =
  report_type :: "string option"
  main_document :: "document option"
  surrounding_documents :: "document list"
  subject_address :: "string option"
  section_content :: "string option"
  workflow_stage :: string
  surrounding_addresses :: "string list option"
  awaiting_addresses :: "bool option"
  awaiting_groundwater :: "bool option"
  surrounding_section :: "generation_result option"

definition initial_session :: session where
  "initial_session =
     \<lparr>report_type = None, main_document = None, surrounding_documents = [],
      subject_address = None, section_content = None,
      workflow_stage = ''awaiting_report_selection'',
      surrounding_addresses = None, awaiting_addresses = None,
      awaiting_groundwater = None, surrounding_section = None\<rparr>"

text \<open>\<^verbatim>\<open>clear_session\<close>: \<^verbatim>\<open>session.clear()\<close> drops every key, the update restores six.\<close>

definition clear_session :: "session \<Rightarrow> session \<times> string list" where
  "clear_session session = (initial_session, [''Session cleared successfully.''])"

datatype summarizer =
  EDRSection521Summarizer
| EDRSection522Summarizer
| ERISSection523Summarizer
| ERISSection524Summarizer
| IntelligentChatSummarizer

text \<open>
  \<^verbatim>\<open>SummarizerFactory.get_summarizer\<close>. A report type that is \<^verbatim>\<open>None\<close> has no \<^verbatim>\<open>upper\<close>: the
  call raises. A known report type with a section of the other family falls through to
  the final \<^verbatim>\<open>raise\<close>.
\<close>

definition get_summarizer :: "string option \<Rightarrow> string \<Rightarrow> string + summarizer" where
  "get_summarizer rt section =
     (case rt of
        None \<Rightarrow> Inl (([CHR 0x27] @ ''NoneType'' @ [CHR 0x27])
                     @ '' object has no attribute '' @ ([CHR 0x27] @ ''upper'' @ [CHR 0x27]))
      | Some rtype \<Rightarrow>
          (let unknown = Inl (''Unknown report type '' @ [CHR 0x27] @ rtype @ [CHR 0x27]
                              @ '' or section '' @ [CHR 0x27] @ section @ [CHR 0x27])
           in if upper rtype = ''EDR'' then
                (if section = ''5.2.1'' then Inr EDRSection521Summarizer
                 else if section = ''5.2.2'' then Inr EDRSection522Summarizer
                 else unknown)
              else if upper rtype = ''ERIS'' then
                (if section = ''5.2.3'' then Inr ERISSection523Summarizer
                 else if section = ''5.2.4'' then Inr ERISSection524Summarizer
                 else unknown)
              else if section = ''chat'' then Inr IntelligentChatSummarizer
              else unknown))"

text \<open>
  The collaborators of the router.
  \<^item> \<open>b64decode\<close>: \<^verbatim>\<open>base64.b64decode\<close>.
  \<^item> \<open>extract_text\<close>: \<^verbatim>\<open>extractor.extract(pdf_bytes, filename).get("text", "")\<close>.
  \<^item> \<open>processor_init\<close>: the constructor \<^verbatim>\<open>ClaudeEchoProcessor()\<close>, which raises without
    an API key.
  \<^item> \<open>get_compliance_summary\<close>: the ECHO service made for a report type.
  \<^item> \<open>format_text\<close>: \<^verbatim>\<open>formatter.format\<close>; the flag is true for the EDR formatter.
  \<^item> \<open>generate_section_streaming\<close>: the summarizer's call of the language model, with
    the content and, for the surrounding sections, the keyword arguments
    \<^verbatim>\<open>subject_address\<close>, \<^verbatim>\<open>groundwater_flow\<close> and \<^verbatim>\<open>distance_data\<close>.
  \<^item> \<open>distance_calculator\<close>: \<^verbatim>\<open>distance_calculator.calculate_distances\<close>, the injected
    calculator.
  \<^item> \<open>repr_failed\<close>: how an f-string prints the list of failure records.
\<close>

record 'w collaborators =
  b64decode :: "string \<Rightarrow> string + string"
  extract_text :: "string \<Rightarrow> string \<Rightarrow> 'w \<Rightarrow> (string + string) \<times> 'w"
  processor_init :: "string + unit"
  get_compliance_summary :: "string \<Rightarrow> string \<Rightarrow> 'w \<Rightarrow> (string + string option) \<times> 'w"
  format_text :: "bool \<Rightarrow> string \<Rightarrow> 'w \<Rightarrow> (string + string) \<times> 'w"
  generate_section_streaming ::
    "summarizer \<Rightarrow> string \<Rightarrow> (string option \<times> string \<times> distance_batch) option \<Rightarrow> 'w \<Rightarrow>
     (string + generation_result) \<times> 'w"
  distance_calculator ::
    "string option \<Rightarrow> string list \<Rightarrow> 'w \<Rightarrow> (string + distance_batch) \<times> 'w"
  repr_failed :: "failure_record list \<Rightarrow> string"

text \<open>\<^verbatim>\<open>EchoServiceFactory.create_service\<close>, as far as it can raise.\<close>

definition create_service :: "'w collaborators \<Rightarrow> string \<Rightarrow> string + unit" where
  "create_service env rtype =
     (if upper rtype = ''EDR'' then processor_init env
      else if upper rtype = ''ERIS'' then processor_init env
      else Inl (''Unknown report type: '' @ rtype))"

section \<open>Document upload\<close>

text \<open>
  The fields of a \<^verbatim>\<open>file_upload\<close> message; \<open>None\<close> is a key the message does not have.
\<close>

record upload_message =
  reportType :: "string option"
  upload_data :: "string option"
  upload_filename :: "string option"

definition key_error :: "string \<Rightarrow> string" where
  "key_error k = [CHR 0x27] @ k @ [CHR 0x27]"

definition main_enhanced_context :: "string \<Rightarrow> string \<Rightarrow> string \<Rightarrow> string" where
  "main_enhanced_context formatted_text echo section_number =
     ''Environmental Database Document Content:\<newline>'' @ formatted_text
     @ ''\<newline>\<newline>Enhanced EPA ECHO Compliance Summary:\<newline>'' @ echo
     @ ''\<newline>\<newline>Instructions: Generate Section '' @ section_number
     @ '' incorporating both the environmental database information and the enhanced EPA ECHO compliance summary.''
     @ '' When the document mentions ECHO database listings, enhance those entries with the detailed compliance information provided above.''
     @ '' Integrate the ECHO compliance data seamlessly into the facility summary to provide comprehensive environmental assessment information.''"

text \<open>
  The inner \<^verbatim>\<open>try\<close> of \<^verbatim>\<open>process_pdf\<close>: the ECHO summary, which stays \<^verbatim>\<open>None\<close> when the
  lookup raises, and the messages sent.
\<close>

definition lookup_echo ::
  "'w collaborators \<Rightarrow> string \<Rightarrow> string \<Rightarrow> 'w \<Rightarrow> string option \<times> string list \<times> 'w" where
  "lookup_echo env rtype raw_text w =
     (case get_compliance_summary env rtype raw_text w of
        (Inl e, w') \<Rightarrow> (None, [''Note: Could not retrieve ECHO data: '' @ e], w')
      | (Inr summary, w') \<Rightarrow>
          (summary,
           if truthy summary
           then [''Found EPA ECHO data - fetching enhanced compliance information...'',
                 ''Enhanced compliance data retrieved successfully.'']
           else [], w'))"

text \<open>
  The branch of \<^verbatim>\<open>process_pdf\<close> for the main document: the session it leaves (\<open>Inr\<close>) or
  the exception raised (\<open>Inl\<close>), with the messages sent until then. The session is
  assigned only after the last call that can raise.
\<close>

definition process_main_document ::
  "'w collaborators \<Rightarrow> string \<Rightarrow> session \<Rightarrow> document \<Rightarrow> 'w \<Rightarrow>
   (string + session) \<times> string list \<times> 'w" where
  "process_main_document env rtype session doc w =
     (let section_number = (if rtype = ''EDR'' then ''5.2.1'' else ''5.2.3'');
          out_main = [''Processing main property document...'',
                      ''--- Section '' @ section_number @ '' ---'']
      in case get_summarizer (Some rtype) section_number of
           Inl e \<Rightarrow> (Inl e, out_main, w) | Inr summarizer \<Rightarrow>
         case generate_section_streaming env summarizer
                (if truthy (echo_summary doc)
                 then main_enhanced_context (formatted doc) (str_opt (echo_summary doc))
                        section_number
                 else formatted doc) None w of
           (Inl e, w') \<Rightarrow> (Inl e, out_main, w') | (Inr result, w') \<Rightarrow>
         let session1 = session\<lparr>main_document := Some doc\<rparr>;
             session2 = (case result of
                           SectionDict content addr \<Rightarrow>
                             session1\<lparr>section_content := Some content, subject_address := addr\<rparr>
                         | SectionText content \<Rightarrow>
                             session1\<lparr>section_content := Some content\<rparr>);
             session3 = session2\<lparr>workflow_stage := ''can_upload_surrounding''\<rparr>;
             next_section = (if rtype = ''EDR'' then ''5.2.2'' else ''5.2.4'')
         in (Inr session3,
             out_main @ [''Section '' @ section_number @ '' complete!'',
                         ''You can now upload surrounding properties PDFs to enable Section ''
                         @ next_section @ '' generation.''],
             w'))"

text \<open>The branch of \<^verbatim>\<open>process_pdf\<close> for a surrounding document.\<close>

definition process_surrounding_document ::
  "string \<Rightarrow> session \<Rightarrow> document \<Rightarrow> session \<times> string list" where
  "process_surrounding_document rtype session doc =
     (let session1 = session\<lparr>surrounding_documents := surrounding_documents session @ [doc]\<rparr>;
          next_section = (if rtype = ''EDR'' then ''5.2.2'' else ''5.2.4'')
      in (session1,
          [''Processing surrounding property document: '' @ filename doc,
           ''Surrounding property '' @ [CHR 0x27] @ filename doc @ [CHR 0x27]
           @ '' processed. Total surrounding documents: ''
           @ str_nat (length (surrounding_documents session1)),
           ''You can upload more surrounding properties or ask me to generate Section ''
           @ next_section @ ''.'']))"

text \<open>
  The \<^verbatim>\<open>try\<close> block of \<^verbatim>\<open>process_pdf\<close>: the session it leaves (\<open>Inr\<close>) or the exception it
  raises (\<open>Inl\<close>), with the messages sent until then.
\<close>

definition process_pdf_body ::
  "'w collaborators \<Rightarrow> upload_message \<Rightarrow> string \<Rightarrow> session \<Rightarrow> 'w \<Rightarrow>
   (string + session) \<times> string list \<times> 'w" where
  "process_pdf_body env message rtype session w =
     (case upload_data message of None \<Rightarrow> (Inl (key_error ''data''), [], w) | Some d \<Rightarrow>
      case b64decode env d of Inl e \<Rightarrow> (Inl e, [], w) | Inr pdf_bytes \<Rightarrow>
      case upload_filename message of None \<Rightarrow> (Inl (key_error ''filename''), [], w) | Some fname \<Rightarrow>
      case extract_text env pdf_bytes fname w of (Inl e, w1) \<Rightarrow> (Inl e, [], w1) | (Inr txt, w1) \<Rightarrow>
      let raw_text = strip txt in
      if raw_text = [] then (Inr session, [''Could not extract text from PDF''], w1) else
      case create_service env rtype of Inl e \<Rightarrow> (Inl e, [], w1) | Inr u \<Rightarrow>
      case lookup_echo env rtype raw_text w1 of (echo, out_echo, w2) \<Rightarrow>
      case format_text env (rtype = ''EDR'') raw_text w2 of
        (Inl e, w3) \<Rightarrow> (Inl e, out_echo, w3) | (Inr formatted_text, w3) \<Rightarrow>
      let doc = \<lparr>filename = fname, doc_text = raw_text,
                 formatted = formatted_text, echo_summary = echo\<rparr>
      in if main_document session = None then
           (case process_main_document env rtype session doc w3 of
              (r, out, w4) \<Rightarrow> (r, out_echo @ out, w4))
         else
           (case process_surrounding_document rtype session doc of
              (session1, out) \<Rightarrow> (Inr session1, out_echo @ out, w3)))"

definition process_pdf ::
  "'w collaborators \<Rightarrow> upload_message \<Rightarrow> session \<Rightarrow> 'w \<Rightarrow> session \<times> string list \<times> 'w" where
  "process_pdf env message session w =
     (let rtype = (case reportType message of None \<Rightarrow> ''EDR'' | Some r \<Rightarrow> r);
          session0 = session\<lparr>report_type := Some rtype\<rparr>;
          out0 = [''Report type: '' @ rtype, ''Processing PDF...'']
      in case process_pdf_body env message rtype session0 w of
           (Inl e, out, w') \<Rightarrow> (session0, out0 @ out @ [''Error: '' @ e], w')
         | (Inr session1, out, w') \<Rightarrow> (session1, out0 @ out, w'))"

section \<open>Chat handler\<close>

text \<open>The phrases that ask for the surrounding-properties section.\<close>

definition section_triggers :: "string option \<Rightarrow> string \<Rightarrow> string list" where
  "section_triggers rt surrounding_sec =
     [surrounding_sec, filter (\<lambda>c. c \<noteq> CHR ''.'') surrounding_sec, ''surrounding properties'']
     @ (if rt = Some ''EDR'' then [''generate 5.2.2'', ''section 5.2.2'']
        else [''generate 5.2.4'', ''section 5.2.4''])"

text \<open>
  The branch taken when the message holds a trigger phrase: four guards in order, then
  the request for the groundwater direction.
\<close>

definition request_surrounding_section :: "session \<Rightarrow> string \<Rightarrow> session \<times> string list" where
  "request_surrounding_section session surrounding_sec =
     (if \<not> truthy (section_content session) then
        (session,
         [''Please complete the subject property section first before proceeding to surrounding properties.''])
      else if \<not> truthy (subject_address session) then
        (session,
         [''I need the subject property address first. The main document didn't contain extractable address information.''])
      else if surrounding_documents session = [] then
        (session,
         [''I can generate Section '' @ surrounding_sec @ '' for '' @ str_opt (subject_address session)
          @ '', but I need surrounding properties data first.'',
          ''Please upload PDFs containing surrounding property database listings, then ask me to generate Section ''
          @ surrounding_sec @ '' again.''])
      else if (case surrounding_addresses session of None \<Rightarrow> True | Some addrs \<Rightarrow> addrs = []) then
        (session\<lparr>awaiting_addresses := Some True\<rparr>,
         [''I have '' @ str_nat (length (surrounding_documents session))
          @ '' surrounding property document(s), but I need the addresses for distance calculations.'',
          ''Please provide the addresses of the surrounding properties (one per message or comma-separated).''])
      else
        (session\<lparr>awaiting_groundwater := Some True\<rparr>,
         [''Ready to generate Section '' @ surrounding_sec @ '' for '' @ str_opt (subject_address session),
          ''I have '' @ str_nat (length (surrounding_documents session))
          @ '' surrounding property document(s)'',
          ''I need the groundwater flow direction (like 'northeast', 'SW', 'north', etc.)'']))"

text \<open>The branch taken while \<^verbatim>\<open>awaiting_addresses\<close> is set.\<close>

definition parse_addresses :: "string \<Rightarrow> string list" where
  "parse_addresses user_question =
     (let addresses = map strip (split_on (CHR '','') user_question)
      in filter (\<lambda>addr. addr \<noteq> [] \<and> 10 < length addr) addresses)"

definition collect_addresses :: "session \<Rightarrow> string \<Rightarrow> session \<times> string list" where
  "collect_addresses session user_question =
     (let addresses = parse_addresses user_question
      in if addresses \<noteq> [] then
           (session\<lparr>surrounding_addresses := Some addresses,
                    awaiting_addresses := Some False,
                    awaiting_groundwater := Some True\<rparr>,
            [''Received '' @ str_nat (length addresses) @ '' surrounding property addresses:'']
            @ map (\<lambda>addr. ''  - '' @ addr) addresses
            @ [''Now I need the groundwater flow direction (like 'northeast', 'SW', 'north', etc.)''])
         else
           (session,
            [''Please provide valid addresses. Example: '123 Main St, City, State' or provide multiple addresses separated by commas.'']))"

definition surrounding_enhanced_context :: "string \<Rightarrow> string \<Rightarrow> string \<Rightarrow> string" where
  "surrounding_enhanced_context combined_data combined_echo surrounding_sec =
     ''Surrounding Properties Environmental Database Data:\<newline>'' @ combined_data
     @ ''\<newline>\<newline>Enhanced EPA ECHO Compliance Summaries for Surrounding Properties:\<newline>''
     @ combined_echo
     @ ''\<newline>\<newline>Instructions: Generate Section '' @ surrounding_sec
     @ '' incorporating both the environmental database information and the enhanced EPA ECHO compliance summaries.''
     @ '' When properties are mentioned as having ECHO database listings, enhance those entries with the detailed compliance information provided above.''"

text \<open>
  The \<^verbatim>\<open>try\<close> block of the groundwater step: the distance computation, the choice of the
  summarizer and the generation. It returns the generated section (\<open>Inr\<close>) or the
  exception raised (\<open>Inl\<close>), with the messages sent until then. Reading the key
  \<^verbatim>\<open>surrounding_addresses\<close> of a session that has none raises \<^verbatim>\<open>KeyError\<close>.
\<close>

definition generate_surrounding_body ::
  "'w collaborators \<Rightarrow> session \<Rightarrow> string \<Rightarrow> 'w \<Rightarrow>
   (string + generation_result) \<times> string list \<times> 'w" where
  "generate_surrounding_body env session groundwater_direction w =
     (case surrounding_addresses session of
        None \<Rightarrow> (Inl (key_error ''surrounding_addresses''), [], w) | Some addrs \<Rightarrow>
      case distance_calculator env (subject_address session) addrs w of
        (Inl e, w1) \<Rightarrow> (Inl e, [], w1) | (Inr distance_data, w1) \<Rightarrow>
      let rt = report_type session;
          out1 = [''Calculated distances for '' @ str_nat (length (distances distance_data))
                  @ '' properties'']
                 @ (if failed distance_data \<noteq> []
                    then [''Failed to calculate distances for: ''
                          @ repr_failed env (failed distance_data)]
                    else []);
          combined_surrounding_data =
            concat (map (\<lambda>doc. ''\<newline>--- '' @ filename doc @ '' ---\<newline>''
                                 @ formatted doc @ ''\<newline>'')
                        (surrounding_documents session));
          combined_echo_summaries =
            concat (map (\<lambda>doc. if truthy (echo_summary doc)
                                 then ''\<newline>--- ECHO Compliance Data for '' @ filename doc
                                      @ '' ---\<newline>'' @ str_opt (echo_summary doc) @ ''\<newline>''
                                 else [])
                        (surrounding_documents session));
          surrounding_sec = (if rt = Some ''EDR'' then ''5.2.2'' else ''5.2.4'');
          out2 = out1 @ [''Generating Section '' @ surrounding_sec @ ''...'',
                         ''--- Section '' @ surrounding_sec @ '' ---'']
      in case get_summarizer rt surrounding_sec of
           Inl e \<Rightarrow> (Inl e, out2, w1) | Inr summarizer \<Rightarrow>
         case generate_section_streaming env summarizer
                (if strip combined_echo_summaries \<noteq> []
                 then surrounding_enhanced_context combined_surrounding_data
                        combined_echo_summaries surrounding_sec
                 else combined_surrounding_data)
                (Some (subject_address session, groundwater_direction, distance_data)) w1 of
           (Inl e, w2) \<Rightarrow> (Inl e, out2, w2)
         | (Inr result, w2) \<Rightarrow> (Inr result, out2, w2))"

text \<open>The branch taken while \<^verbatim>\<open>awaiting_groundwater\<close> is set.\<close>

definition handle_groundwater ::
  "'w collaborators \<Rightarrow> session \<Rightarrow> string \<Rightarrow> string \<Rightarrow> 'w \<Rightarrow> session \<times> string list \<times> 'w" where
  "handle_groundwater env session surrounding_sec user_question w =
     (case extract_groundwater_direction user_question of
        None \<Rightarrow>
          (session,
           [''I didn't recognize a groundwater flow direction. Please specify like: 'northeast', 'SW', 'north', 'southeast', etc.''],
           w)
      | Some groundwater_direction \<Rightarrow>
          (let out0 = [''Using groundwater flow direction: '' @ groundwater_direction,
                       ''Calculating distances...'']
           in case generate_surrounding_body env session groundwater_direction w of
                (Inl e, out, w') \<Rightarrow>
                  (session\<lparr>awaiting_groundwater := Some False\<rparr>,
                   out0 @ out @ [''Error generating Section '' @ surrounding_sec @ '': '' @ e],
                   w')
              | (Inr result, out, w') \<Rightarrow>
                  (session\<lparr>surrounding_section := Some result,
                           awaiting_groundwater := Some False\<rparr>,
                   out0 @ out @ [''Section '' @ surrounding_sec @ '' complete!''],
                   w')))"

text \<open>The general question-answering path; it leaves the session as it is.\<close>

definition chat_context :: "session \<Rightarrow> document \<Rightarrow> string \<Rightarrow> string" where
  "chat_context session main user_question =
     (let all_documents_context =
            ''Main Document ('' @ filename main @ ''):\<newline>'' @ take 2000 (formatted main)
            @ (if surrounding_documents session \<noteq> []
               then ''\<newline>\<newline>Surrounding Properties Documents:\<newline>''
                    @ concat (map (\<lambda>doc. ''\<newline>'' @ filename doc @ '':\<newline>''
                                         @ take 1000 (formatted doc))
                                (surrounding_documents session))
               else []);
          echo_context =
            (if truthy (echo_summary main)
             then ''\<newline>\<newline>Enhanced ECHO Compliance Data for Main Property:\<newline>''
                  @ str_opt (echo_summary main)
             else [])
            @ concat (map (\<lambda>doc. if truthy (echo_summary doc)
                                   then ''\<newline>\<newline>Enhanced ECHO Compliance Data for ''
                                        @ filename doc @ '':\<newline>'' @ str_opt (echo_summary doc)
                                   else [])
                          (surrounding_documents session))
      in ''\<newline>    You are an environmental assessment assistant working with ''
         @ str_opt (report_type session)
         @ '' reports. A user has uploaded and processed PDF documents.\<newline>    \<newline>    ''
         @ all_documents_context @ ''\<newline>    \<newline>    '' @ echo_context
         @ ''\<newline>    \<newline>    Generated Section Content:\<newline>    ''
         @ str_opt (section_content session)
         @ ''\<newline>    \<newline>    Subject Property Address: '' @ str_opt (subject_address session)
         @ ''\<newline>    \<newline>    Report Type: '' @ str_opt (report_type session)
         @ ''\<newline>    \<newline>    User Question: '' @ user_question
         @ ''\<newline>    \<newline>    Please answer the user's question based on this environmental assessment information.''
         @ '' Be specific and reference the actual data from the documents.\<newline>    '')"

definition answer_question ::
  "'w collaborators \<Rightarrow> session \<Rightarrow> document \<Rightarrow> string \<Rightarrow> 'w \<Rightarrow> session \<times> string list \<times> 'w" where
  "answer_question env session main user_question w =
     (case get_summarizer (Some []) ''chat'' of
        Inl e \<Rightarrow> (session, [''I had trouble processing your question: '' @ e], w)
      | Inr chat_summarizer \<Rightarrow>
          (case generate_section_streaming env chat_summarizer
                  (chat_context session main user_question) None w of
             (Inl e, w') \<Rightarrow> (session, [''I had trouble processing your question: '' @ e], w')
           | (Inr result, w') \<Rightarrow> (session, [], w')))"

text \<open>
  \<^verbatim>\<open>handle_intelligent_chat\<close>, on the \<^verbatim>\<open>content\<close> of the message. The branches are tried in
  the order of the source: no main document, a trigger phrase, \<^verbatim>\<open>awaiting_addresses\<close>,
  \<^verbatim>\<open>awaiting_groundwater\<close>, a general question.
\<close>

definition handle_intelligent_chat ::
  "'w collaborators \<Rightarrow> string \<Rightarrow> session \<Rightarrow> 'w \<Rightarrow> session \<times> string list \<times> 'w" where
  "handle_intelligent_chat env content session w =
     (let user_question = strip content;
          rt = report_type session
      in case main_document session of
           None \<Rightarrow>
             (session,
              [''Please upload the subject propety adress and pdf file for the subject property.''],
              w)
         | Some main \<Rightarrow>
             (let surrounding_sec = (if rt = Some ''EDR'' then ''5.2.2'' else ''5.2.4'')
              in if list_ex (\<lambda>phrase. occurs_in phrase (lower user_question))
                      (section_triggers rt surrounding_sec)
                 then (case request_surrounding_section session surrounding_sec of
                         (session', out) \<Rightarrow> (session', out, w))
                 else if awaiting_addresses session = Some True
                 then (case collect_addresses session user_question of
                         (session', out) \<Rightarrow> (session', out, w))
                 else if awaiting_groundwater session = Some True
                 then handle_groundwater env session surrounding_sec user_question w
                 else answer_question env session main user_question w))"

section \<open>The connection loop\<close>

text \<open>
  One inbound frame of \<^verbatim>\<open>websocket_endpoint\<close>: the three message types the loop
  dispatches on, a JSON object of any other type (ignored), and text that is not JSON.
\<close>

datatype inbound =
  FileUpload upload_message
| Chat string
| ClearSession
| OtherType
| Malformed

fun dispatch ::
  "'w collaborators \<Rightarrow> inbound \<Rightarrow> session \<Rightarrow> 'w \<Rightarrow> session \<times> string list \<times> 'w" where
  "dispatch env (FileUpload message) session w = process_pdf env message session w"
| "dispatch env (Chat content) session w = handle_intelligent_chat env content session w"
| "dispatch env ClearSession session w =
     (case clear_session session of (session', out) \<Rightarrow> (session', out, w))"
| "dispatch env OtherType session w = (session, [], w)"
| "dispatch env Malformed session w =
     (session, [''Please upload a PDF or use the chat interface.''], w)"

text \<open>The session and the world after a sequence of frames.\<close>

fun run :: "'w collaborators \<Rightarrow> inbound list \<Rightarrow> session \<Rightarrow> 'w \<Rightarrow> session \<times> 'w" where
  "run env [] session w = (session, w)"
| "run env (frame # frames) session w =
     (case dispatch env frame session w of (session', out, w') \<Rightarrow> run env frames session' w')"

definition websocket_endpoint :: "'w collaborators \<Rightarrow> inbound list \<Rightarrow> 'w \<Rightarrow> session \<times> 'w" where
  "websocket_endpoint env frames w = run env frames initial_session w"

text \<open>
  The relation between the two flags and the address list that every handler keeps:
  while \<^verbatim>\<open>awaiting_addresses\<close> is set the session has no surrounding address, and while
  \<^verbatim>\<open>awaiting_groundwater\<close> is set it has at least one.
\<close>

definition flags_consistent :: "session \<Rightarrow> bool" where
  "flags_consistent session =
     ((awaiting_addresses session = Some True \<longrightarrow>
         surrounding_addresses session = None \<or> surrounding_addresses session = Some []) \<and>
      (awaiting_groundwater session = Some True \<longrightarrow>
         surrounding_addresses session \<noteq> None \<and> surrounding_addresses session \<noteq> Some []))"

section \<open>Test doubles\<close>

text \<open>
  A small geocoder, geometry library and set of collaborators, on which the theorems
  below are instantiated. The world state counts the geocoder's calls. Geometries are
  points; a geometry with a latitude above 90 is rejected by \<open>stub_shape\<close>.
\<close>

definition stub_get_geometry :: "string \<Rightarrow> nat \<Rightarrow> point option \<times> nat" where
  "stub_get_geometry addr w =
     (if addr = ''100 Subject Way'' then Some \<lparr>pt_x = 0, pt_y = 0\<rparr>
      else if addr = ''200 North Road'' then Some \<lparr>pt_x = - 1, pt_y = 1\<rparr>
      else if addr = ''300 East Street'' then Some \<lparr>pt_x = 1, pt_y = 0\<rparr>
      else if addr = ''400 Polar Court'' then Some \<lparr>pt_x = 0, pt_y = 91\<rparr>
      else None,
      Suc w)"

definition stub_shape :: "point \<Rightarrow> string + point" where
  "stub_shape p = (if 90 < pt_y p then Inl ''latitude out of range'' else Inr p)"

definition stub_Inverse :: "real \<Rightarrow> real \<Rightarrow> real \<Rightarrow> real \<Rightarrow> string + inverse_result" where
  "stub_Inverse lat1 lon1 lat2 lon2 =
     (if lat1 = lat2 \<and> lon1 = lon2 then Inr \<lparr>s12 = 0, azi1 = 180\<rparr>
      else if lon2 < lon1 then Inr \<lparr>s12 = 1000, azi1 = - 0.04\<rparr>
      else Inr \<lparr>s12 = 1000, azi1 = 90\<rparr>)"

definition stub_lib :: "(point, point) geo_lib" where
  "stub_lib =
     \<lparr>shape = stub_shape,
      nearest_points = (\<lambda>g1 g2. Inr (g1, g2)),
      representative_point = (\<lambda>g. Inr (g\<lparr>pt_x := - pt_x g\<rparr>)),
      Inverse = stub_Inverse\<rparr>"

definition stub_env :: "nat collaborators" where
  "stub_env =
     \<lparr>b64decode = (\<lambda>d. Inr d),
      extract_text = (\<lambda>pdf_bytes fname w. (Inr pdf_bytes, w)),
      processor_init = Inr (),
      get_compliance_summary = (\<lambda>rtype raw_text w. (Inr None, w)),
      format_text = (\<lambda>edr raw_text w. (Inr raw_text, w)),
      generate_section_streaming =
        (\<lambda>summarizer content kwargs w.
           (if summarizer = EDRSection521Summarizer \<or> summarizer = ERISSection523Summarizer
            then Inr (SectionDict content (Some ''100 Subject Way''))
            else Inr (SectionText content), w)),
      distance_calculator =
        (\<lambda>subject surrounding w.
           case subject of
             None \<Rightarrow> (Inl ''Could not geocode subject address: None'', w)
           | Some s \<Rightarrow> calculate_distances stub_get_geometry stub_lib s surrounding w),
      repr_failed = (\<lambda>fs. concat (map failed_address fs))\<rparr>"

definition stub_document :: document where
  "stub_document =
     \<lparr>filename = ''subject.pdf'', doc_text = ''raw'', formatted = ''formatted'',
      echo_summary = None\<rparr>"

text \<open>A session that has asked for the addresses, and one that has them.\<close>

definition stub_session_addresses :: session where
  "stub_session_addresses =
     \<lparr>report_type = Some ''EDR'', main_document = Some stub_document,
      surrounding_documents = [stub_document],
      subject_address = Some ''100 Subject Way'', section_content = Some ''section'',
      workflow_stage = ''can_upload_surrounding'',
      surrounding_addresses = None, awaiting_addresses = Some True,
      awaiting_groundwater = None, surrounding_section = None\<rparr>"

definition stub_session_groundwater :: session where
  "stub_session_groundwater =
     \<lparr>report_type = Some ''EDR'', main_document = Some stub_document,
      surrounding_documents = [stub_document],
      subject_address = Some ''1 Unknown Place'', section_content = Some ''section'',
      workflow_stage = ''can_upload_surrounding'',
      surrounding_addresses = Some [''200 North Road''], awaiting_addresses = Some False,
      awaiting_groundwater = Some True, surrounding_section = None\<rparr>"

section \<open>The distance batch\<close>

lemma distances_loop_mset:
  "distances_loop gg lib sg addrs results fails w = ((rs, fs), w') \<Longrightarrow>
   mset (map address rs) + mset (map failed_address fs) =
   mset (map address results) + mset (map failed_address fails) + mset addrs"
proof (induction addrs arbitrary: results fails w)
  case Nil
  then show ?case by simp
next
  case (Cons a addrs)
  then show ?case
    by (auto split: prod.splits option.splits sum.splits)
qed

lemma distances_loop_positions:
  "distances_loop gg lib sg addrs results fails w = ((rs, fs), w') \<Longrightarrow>
   \<exists>bs. length bs = length addrs \<and>
        map address rs = map address results @ map fst (filter snd (zip addrs bs)) \<and>
        map failed_address fs =
          map failed_address fails @ map fst (filter (\<lambda>p. \<not> snd p) (zip addrs bs))"
proof (induction addrs arbitrary: results fails w)
  case Nil
  then show ?case by simp
next
  case (Cons a addrs)
  obtain go w1 where g: "gg a w = (go, w1)" by (cases "gg a w")
  show ?case
  proof (cases go)
    case None
    with Cons.prems g have
      "distances_loop gg lib sg addrs results
         (fails @ [\<lparr>failed_address = a, error = ''Geocoding failed''\<rparr>]) w1 = ((rs, fs), w')"
      by simp
    from Cons.IH [OF this] obtain bs where
      "length bs = length addrs"
      "map address rs = map address results @ map fst (filter snd (zip addrs bs))"
      "map failed_address fs = map failed_address fails @ [a]
         @ map fst (filter (\<lambda>p. \<not> snd p) (zip addrs bs))"
      by auto
    then show ?thesis
      by (intro exI [of _ "False # bs"]) simp
  next
    case (Some geometry)
    show ?thesis
    proof (cases "distance_and_direction lib sg geometry 1 8")
      case (Inl e)
      with Cons.prems g Some have
        "distances_loop gg lib sg addrs results
           (fails @ [\<lparr>failed_address = a,
                      error = ''Distance calculation failed: '' @ e\<rparr>]) w1 = ((rs, fs), w')"
        by simp
      from Cons.IH [OF this] obtain bs where
        "length bs = length addrs"
        "map address rs = map address results @ map fst (filter snd (zip addrs bs))"
        "map failed_address fs = map failed_address fails @ [a]
           @ map fst (filter (\<lambda>p. \<not> snd p) (zip addrs bs))"
        by auto
      then show ?thesis
        by (intro exI [of _ "False # bs"]) simp
    next
      case (Inr r)
      obtain distance_m bearing dir where r: "r = (distance_m, bearing, dir)"
        by (cases r)
      with Cons.prems g Some Inr have
        "distances_loop gg lib sg addrs
           (results @ [\<lparr>address = a, distance_ft = py_round1 (distance_m * 3.28084),
                        direction = dir, bearing_deg = py_round1 bearing\<rparr>])
           fails w1 = ((rs, fs), w')"
        by simp
      from Cons.IH [OF this] obtain bs where
        "length bs = length addrs"
        "map address rs = map address results @ [a] @ map fst (filter snd (zip addrs bs))"
        "map failed_address fs = map failed_address fails
           @ map fst (filter (\<lambda>p. \<not> snd p) (zip addrs bs))"
        by auto
      then show ?thesis
        by (intro exI [of _ "True # bs"]) simp
    qed
  qed
qed

text \<open>
  Claim C1. When the subject address is geocoded, \<^verbatim>\<open>calculate_distances\<close> returns a batch,
  and every entry of the surrounding list goes to exactly one of \<open>distances\<close> and
  \<open>failed\<close>: the two address sequences together are the input as a multiset, and there
  is a mark for each input position that sends it to the one sequence or to the other,
  in input order.
\<close>

theorem calculate_distances_partition:
  assumes "fst (get_geometry subject w) \<noteq> None"
  shows "\<exists>batch bs.
           fst (calculate_distances get_geometry lib subject surrounding w) = Inr batch \<and>
           mset (map address (distances batch)) + mset (map failed_address (failed batch))
             = mset surrounding \<and>
           length bs = length surrounding \<and>
           map address (distances batch) = map fst (filter snd (zip surrounding bs)) \<and>
           map failed_address (failed batch)
             = map fst (filter (\<lambda>p. \<not> snd p) (zip surrounding bs))"
proof -
  obtain sg w1 where s: "get_geometry subject w = (Some sg, w1)"
    using assms by (cases "get_geometry subject w") auto
  obtain rs fs w2 where
    l: "distances_loop get_geometry lib sg surrounding [] [] w1 = ((rs, fs), w2)"
    by (metis surj_pair)
  from distances_loop_mset [OF l] have
    m: "mset (map address rs) + mset (map failed_address fs) = mset surrounding"
    by simp
  from distances_loop_positions [OF l] obtain bs where
    b: "length bs = length surrounding"
       "map address rs = map fst (filter snd (zip surrounding bs))"
       "map failed_address fs = map fst (filter (\<lambda>p. \<not> snd p) (zip surrounding bs))"
    by auto
  have "fst (calculate_distances get_geometry lib subject surrounding w) =
          Inr \<lparr>batch_subject_address = subject, distances = rs, failed = fs\<rparr>"
    using s l by (simp add: calculate_distances_def)
  with m b show ?thesis
    by (intro exI [of _ "\<lparr>batch_subject_address = subject, distances = rs, failed = fs\<rparr>"]
              exI [of _ bs]) (simp del: mset_map)
qed

theorem calculate_distances_partition_witness:
  "fst (stub_get_geometry ''100 Subject Way'' 0) \<noteq> None \<and>
   (\<exists>batch bs.
      fst (calculate_distances stub_get_geometry stub_lib ''100 Subject Way''
             [''200 North Road'', ''nowhere'', ''400 Polar Court'', ''200 North Road''] 0)
        = Inr batch \<and>
      mset (map address (distances batch)) + mset (map failed_address (failed batch))
        = mset [''200 North Road'', ''nowhere'', ''400 Polar Court'', ''200 North Road''] \<and>
      length bs = length [''200 North Road'', ''nowhere'', ''400 Polar Court'', ''200 North Road''] \<and>
      map address (distances batch) = map fst (filter snd
        (zip [''200 North Road'', ''nowhere'', ''400 Polar Court'', ''200 North Road''] bs)) \<and>
      map failed_address (failed batch) = map fst (filter (\<lambda>p. \<not> snd p)
        (zip [''200 North Road'', ''nowhere'', ''400 Polar Court'', ''200 North Road''] bs)))"
proof -
  have h: "fst (stub_get_geometry ''100 Subject Way'' 0) \<noteq> None"
    by (simp add: stub_get_geometry_def)
  from h calculate_distances_partition
         [where get_geometry = stub_get_geometry and subject = "''100 Subject Way''"
            and w = 0 and lib = stub_lib
            and surrounding = "[''200 North Road'', ''nowhere'', ''400 Polar Court'', ''200 North Road'']"]
  show ?thesis by blast
qed

text \<open>
  Claim C5. When the subject address is not geocoded, \<^verbatim>\<open>calculate_distances\<close> raises
  \<^verbatim>\<open>RuntimeError\<close> after that one geocoder call, whatever the surrounding addresses
  are, and returns no batch.
\<close>

theorem subject_geocode_failure_is_fatal:
  assumes "fst (get_geometry subject w) = None"
  shows "calculate_distances get_geometry lib subject surrounding w
           = (Inl (''Could not geocode subject address: '' @ subject),
              snd (get_geometry subject w)) \<and>
         (\<forall>batch. fst (calculate_distances get_geometry lib subject surrounding w) \<noteq> Inr batch)"
  using assms by (cases "get_geometry subject w") (simp add: calculate_distances_def)

theorem subject_geocode_failure_is_fatal_witness:
  "fst (stub_get_geometry ''1 Unknown Place'' 0) = None \<and>
   calculate_distances stub_get_geometry stub_lib ''1 Unknown Place'' [''200 North Road''] 0
     = (Inl (''Could not geocode subject address: '' @ ''1 Unknown Place''),
        snd (stub_get_geometry ''1 Unknown Place'' 0)) \<and>
   (\<forall>batch. fst (calculate_distances stub_get_geometry stub_lib ''1 Unknown Place''
                   [''200 North Road''] 0) \<noteq> Inr batch)"
proof -
  have h: "fst (stub_get_geometry ''1 Unknown Place'' 0) = None"
    by (simp add: stub_get_geometry_def)
  from h subject_geocode_failure_is_fatal
         [where get_geometry = stub_get_geometry and subject = "''1 Unknown Place''"
            and w = 0 and lib = stub_lib and surrounding = "[''200 North Road'']"]
  show ?thesis by blast
qed

section \<open>Bearings and compass labels\<close>

lemma py_round_near:
  assumes a: "\<bar>x - of_int k\<bar> < 1 / 2"
  shows "py_round x = k"
proof -
  have "\<lfloor>x\<rfloor> = k \<or> \<lfloor>x\<rfloor> = k - 1" using a by linarith
  then show ?thesis
  proof
    assume f: "\<lfloor>x\<rfloor> = k"
    have "x - of_int k < 1 / 2" using a by linarith
    then show ?thesis using f by (simp add: py_round_def Let_def)
  next
    assume f: "\<lfloor>x\<rfloor> = k - 1"
    have "of_int (k - 1) = (of_int k :: real) - 1" by simp
    with a have "1 / 2 < x - of_int (k - 1)" by linarith
    then show ?thesis using f unfolding py_round_def Let_def by simp
  qed
qed

lemma py_fmod_range:
  assumes "0 < y"
  shows "0 \<le> py_fmod x y" and "py_fmod x y < y"
proof -
  from floor_divide_lower [OF assms, of x] have "y * of_int \<lfloor>x / y\<rfloor> \<le> x"
    by (simp add: mult.commute)
  then show "0 \<le> py_fmod x y" by (simp add: py_fmod_def)
  from floor_divide_upper [OF assms, of x] have "x < y * of_int \<lfloor>x / y\<rfloor> + y"
    by (simp add: algebra_simps)
  then show "py_fmod x y < y" by (simp add: py_fmod_def)
qed

lemma py_fmod_shift: "\<exists>k::int. py_fmod x y = x + y * of_int k"
  by (rule exI [of _ "- \<lfloor>x / y\<rfloor>"]) (simp add: py_fmod_def)

text \<open>
  Claim C2. Let the two geometries be read and their nearest points have the geodesic
  inverse \<open>near\<close>. If the distance \<open>s12 near\<close> is at least the threshold, the function
  returns that distance and its initial bearing \<open>azi1 near\<close>; if it is below the
  threshold, it returns the distance and the bearing of the inverse \<open>rep\<close> between the
  two representative points. The bearing is returned as a compass bearing: the azimuth
  shifted by a multiple of 360 into the interval from 0 to 360, 360 excluded.
\<close>

theorem distance_and_direction_threshold:
  assumes "shape lib A = Inr g1" and "shape lib B = Inr g2"
    and "nearest_points lib g1 g2 = Inr (p1, p2)"
    and "Inverse lib (pt_y p1) (pt_x p1) (pt_y p2) (pt_x p2) = Inr near"
  shows "(t \<le> s12 near \<longrightarrow>
            distance_and_direction lib A B t n =
              Inr (s12 near, py_fmod (azi1 near + 360) 360,
                   compass_label (py_fmod (azi1 near + 360) 360) n)) \<and>
         (s12 near < t \<and> representative_point lib g1 = Inr r1 \<and>
          representative_point lib g2 = Inr r2 \<and>
          Inverse lib (pt_y r1) (pt_x r1) (pt_y r2) (pt_x r2) = Inr rep \<longrightarrow>
            distance_and_direction lib A B t n =
              Inr (s12 rep, py_fmod (azi1 rep + 360) 360,
                   compass_label (py_fmod (azi1 rep + 360) 360) n)) \<and>
         (\<forall>a. 0 \<le> py_fmod (a + 360) 360 \<and> py_fmod (a + 360) 360 < 360 \<and>
              (\<exists>k::int. py_fmod (a + 360) 360 = a + 360 * of_int k))"
proof (intro conjI impI allI)
  assume "t \<le> s12 near"
  with assms show "distance_and_direction lib A B t n =
      Inr (s12 near, py_fmod (azi1 near + 360) 360,
           compass_label (py_fmod (azi1 near + 360) 360) n)"
    by (simp add: distance_and_direction_def Let_def)
next
  assume "s12 near < t \<and> representative_point lib g1 = Inr r1 \<and>
          representative_point lib g2 = Inr r2 \<and>
          Inverse lib (pt_y r1) (pt_x r1) (pt_y r2) (pt_x r2) = Inr rep"
  with assms show "distance_and_direction lib A B t n =
      Inr (s12 rep, py_fmod (azi1 rep + 360) 360,
           compass_label (py_fmod (azi1 rep + 360) 360) n)"
    by (simp add: distance_and_direction_def azimuth_degrees_def Let_def)
next
  fix a :: real
  show "0 \<le> py_fmod (a + 360) 360" by (rule py_fmod_range) simp
  show "py_fmod (a + 360) 360 < 360" by (rule py_fmod_range) simp
  from py_fmod_shift [of "a + 360" 360] obtain k :: int
    where "py_fmod (a + 360) 360 = a + 360 + 360 * of_int k" by blast
  then have "py_fmod (a + 360) 360 = a + 360 * of_int (k + 1)" by (simp add: algebra_simps)
  then show "\<exists>k::int. py_fmod (a + 360) 360 = a + 360 * of_int k" by blast
qed

lemma compass_label_8: "compass_label b 8 = names8 ! nat (py_round (b / 45) mod 8)"
  by (simp add: compass_label_def names8_def)

lemma compass_label_16: "compass_label b 16 = names16 ! nat (py_round (b * 2 / 45) mod 16)"
  by (simp add: compass_label_def names16_def mult.commute)

lemma compass_sector_8:
  assumes "\<bar>b - of_int k * 45\<bar> < 45 / 2"
  shows "compass_label b 8 = names8 ! nat (k mod 8)"
proof -
  from assms have "\<bar>b / 45 - of_int k\<bar> < 1 / 2"
    by (simp add: abs_less_iff field_simps)
  then have "py_round (b / 45) = k" by (rule py_round_near)
  then show ?thesis by (simp add: compass_label_8)
qed

lemma compass_sector_16:
  assumes "\<bar>b - of_int k * (45 / 2)\<bar> < 45 / 4"
  shows "compass_label b 16 = names16 ! nat (k mod 16)"
proof -
  from assms have "\<bar>b * 2 / 45 - of_int k\<bar> < 1 / 2"
    by (simp add: abs_less_iff field_simps)
  then have "py_round (b * 2 / 45) = k" by (rule py_round_near)
  then show ?thesis by (simp add: compass_label_16)
qed

lemma compass_cardinals:
  "compass_label 0 8 = ''N''" "compass_label 90 8 = ''E''" "compass_label 180 8 = ''S''"
  "compass_label 270 8 = ''W''" "compass_label 45 8 = ''NE''"
  by (simp_all add: compass_label_8 py_round_def names8_def)

text \<open>
  Claim C3. For 8 and for 16 compass points the label of a bearing is the name at index
  \<^verbatim>\<open>round(b / (360 / num_points))\<close> modulo the number of points in the compass rose, which
  is written out here: N, NE, E, SE, S, SW, W, NW for 8 points and N, NNE, NE, ENE, E,
  ESE, SE, SSE, S, SSW, SW, WSW, W, WNW, NW, NNW for 16. The index lies inside the rose.
  The sectors are centred on the names: a bearing less than half a sector away from
  \<open>k\<close> sector widths is labelled with name \<open>k\<close> modulo the number of points, so that N is
  centred on 0. With 8 points, 0, 90, 180, 270 and 45 degrees are N, E, S, W and NE; the
  centre of every sector of both roses has the name of that sector; a tie goes to the
  even index, as \<^verbatim>\<open>round\<close> does (22.5 degrees is N and 67.5 degrees is E with 8 points);
  and 359 degrees wraps to N. The theorem holds for every bearing, those between 0 and
  360 among them.
\<close>

theorem compass_label_sector:
  assumes "n = 8 \<or> n = 16"
  shows "compass_label b n =
           (if n = 8 then [''N'', ''NE'', ''E'', ''SE'', ''S'', ''SW'', ''W'', ''NW'']
            else [''N'', ''NNE'', ''NE'', ''ENE'', ''E'', ''ESE'', ''SE'', ''SSE'',
                  ''S'', ''SSW'', ''SW'', ''WSW'', ''W'', ''WNW'', ''NW'', ''NNW''])
           ! nat (py_round (b / (360 / of_int n)) mod n) \<and>
         nat (py_round (b / (360 / of_int n)) mod n) < nat n \<and>
         (\<forall>k. \<bar>b - of_int k * (360 / of_int n)\<bar> < 180 / of_int n \<longrightarrow>
              compass_label b n =
                (if n = 8 then [''N'', ''NE'', ''E'', ''SE'', ''S'', ''SW'', ''W'', ''NW'']
                 else [''N'', ''NNE'', ''NE'', ''ENE'', ''E'', ''ESE'', ''SE'', ''SSE'',
                       ''S'', ''SSW'', ''SW'', ''WSW'', ''W'', ''WNW'', ''NW'', ''NNW''])
                ! nat (k mod n)) \<and>
         compass_label 0 8 = ''N'' \<and> compass_label 90 8 = ''E'' \<and>
         compass_label 180 8 = ''S'' \<and> compass_label 270 8 = ''W'' \<and>
         compass_label 45 8 = ''NE'' \<and>
         map (\<lambda>x. compass_label x 8) [0, 45, 90, 135, 180, 225, 270, 315] =
           [''N'', ''NE'', ''E'', ''SE'', ''S'', ''SW'', ''W'', ''NW''] \<and>
         map (\<lambda>x. compass_label x 16)
             [0, 22.5, 45, 67.5, 90, 112.5, 135, 157.5,
              180, 202.5, 225, 247.5, 270, 292.5, 315, 337.5] =
           [''N'', ''NNE'', ''NE'', ''ENE'', ''E'', ''ESE'', ''SE'', ''SSE'',
            ''S'', ''SSW'', ''SW'', ''WSW'', ''W'', ''WNW'', ''NW'', ''NNW''] \<and>
         compass_label 22.5 8 = ''N'' \<and> compass_label 67.5 8 = ''E'' \<and>
         compass_label 359 8 = ''N'' \<and> compass_label 359 16 = ''N''"
proof -
  let ?names = "if n = 8 then [''N'', ''NE'', ''E'', ''SE'', ''S'', ''SW'', ''W'', ''NW'']
            else [''N'', ''NNE'', ''NE'', ''ENE'', ''E'', ''ESE'', ''SE'', ''SSE'',
                  ''S'', ''SSW'', ''SW'', ''WSW'', ''W'', ''WNW'', ''NW'', ''NNW'']"
  have names: "?names = (if n = 8 then names8 else names16)"
    by (simp add: names8_def names16_def)
  have 1: "compass_label b n = ?names ! nat (py_round (b / (360 / of_int n)) mod n)"
    unfolding names using assms
    by (auto simp: compass_label_8 compass_label_16 mult.commute)
  have 2: "nat (py_round (b / (360 / of_int n)) mod n) < nat n"
    using assms by auto
  have 3: "\<forall>k. \<bar>b - of_int k * (360 / of_int n)\<bar> < 180 / of_int n \<longrightarrow>
      compass_label b n = ?names ! nat (k mod n)"
    unfolding names using assms
  proof
    assume n: "n = 8"
    then show "\<forall>k. \<bar>b - of_int k * (360 / of_int n)\<bar> < 180 / of_int n \<longrightarrow>
        compass_label b n = (if n = 8 then names8 else names16) ! nat (k mod n)"
      by (auto intro: compass_sector_8)
  next
    assume n: "n = 16"
    then show "\<forall>k. \<bar>b - of_int k * (360 / of_int n)\<bar> < 180 / of_int n \<longrightarrow>
        compass_label b n = (if n = 8 then names8 else names16) ! nat (k mod n)"
      by (auto intro: compass_sector_16)
  qed
  have 4: "map (\<lambda>x. compass_label x 8) [0, 45, 90, 135, 180, 225, 270, 315] =
           [''N'', ''NE'', ''E'', ''SE'', ''S'', ''SW'', ''W'', ''NW'']"
    by (simp add: compass_label_8 py_round_def names8_def)
  have 5: "map (\<lambda>x. compass_label x 16)
             [0, 22.5, 45, 67.5, 90, 112.5, 135, 157.5,
              180, 202.5, 225, 247.5, 270, 292.5, 315, 337.5] =
           [''N'', ''NNE'', ''NE'', ''ENE'', ''E'', ''ESE'', ''SE'', ''SSE'',
            ''S'', ''SSW'', ''SW'', ''WSW'', ''W'', ''WNW'', ''NW'', ''NNW'']"
    by (simp add: compass_label_16 py_round_def names16_def)
  have 6: "compass_label 22.5 8 = ''N''" "compass_label 67.5 8 = ''E''"
    "compass_label 359 8 = ''N''"
    by (simp_all add: compass_label_8 py_round_def names8_def)
  have 7: "compass_label 359 16 = ''N''"
    by (simp add: compass_label_16 py_round_def names16_def)
  from 1 2 3 4 5 6 7 compass_cardinals show ?thesis by blast
qed

theorem compass_label_sector_witness:
  "((8::int) = 8 \<or> (8::int) = 16) \<and> ((16::int) = 8 \<or> (16::int) = 16) \<and>
   compass_label 100 8 = ''E'' \<and>
   compass_label 200 16 = ''SSW'' \<and>
   compass_label 135 8 = ''SE'' \<and>
   compass_label 0 16 = ''N''"
proof -
  have h8: "(8::int) = 8 \<or> (8::int) = 16" by simp
  have h16: "(16::int) = 8 \<or> (16::int) = 16" by simp
  note t8 = compass_label_sector [OF h8, of 100]
  note t16 = compass_label_sector [OF h16, of 200]
  from t8 have "\<bar>(100::real) - of_int 2 * (360 / of_int 8)\<bar> < 180 / of_int 8 \<longrightarrow>
      compass_label 100 8 =
        (if (8::int) = 8 then [''N'', ''NE'', ''E'', ''SE'', ''S'', ''SW'', ''W'', ''NW'']
         else [''N'', ''NNE'', ''NE'', ''ENE'', ''E'', ''ESE'', ''SE'', ''SSE'',
               ''S'', ''SSW'', ''SW'', ''WSW'', ''W'', ''WNW'', ''NW'', ''NNW''])
        ! nat (2 mod 8)"
    by blast
  then have a: "compass_label 100 8 = ''E''" by simp
  from t16 have "\<bar>(200::real) - of_int 9 * (360 / of_int 16)\<bar> < 180 / of_int 16 \<longrightarrow>
      compass_label 200 16 =
        (if (16::int) = 8 then [''N'', ''NE'', ''E'', ''SE'', ''S'', ''SW'', ''W'', ''NW'']
         else [''N'', ''NNE'', ''NE'', ''ENE'', ''E'', ''ESE'', ''SE'', ''SSE'',
               ''S'', ''SSW'', ''SW'', ''WSW'', ''W'', ''WNW'', ''NW'', ''NNW''])
        ! nat (9 mod 16)"
    by blast
  then have b: "compass_label 200 16 = ''SSW''" by simp
  from t8 have "map (\<lambda>x. compass_label x 8) [0, 45, 90, 135, 180, 225, 270, 315] =
           [''N'', ''NE'', ''E'', ''SE'', ''S'', ''SW'', ''W'', ''NW'']"
    by blast
  then have c: "compass_label 135 8 = ''SE''" by simp
  from t16 have "map (\<lambda>x. compass_label x 16)
             [0, 22.5, 45, 67.5, 90, 112.5, 135, 157.5,
              180, 202.5, 225, 247.5, 270, 292.5, 315, 337.5] =
           [''N'', ''NNE'', ''NE'', ''ENE'', ''E'', ''ESE'', ''SE'', ''SSE'',
            ''S'', ''SSW'', ''SW'', ''WSW'', ''W'', ''WNW'', ''NW'', ''NNW'']"
    by blast
  then have d: "compass_label 0 16 = ''N''" by simp
  from h8 h16 a b c d show ?thesis by blast
qed

text \<open>
  Claim C7. The bearing is brought into the interval from 0 to 360, 360 excluded, before
  it is rounded to one decimal place, so the rounded field can be 360.0: an azimuth of
  -0.04 degrees is the bearing 359.96, which rounds to 360.0. Here the neighbour of the
  test geocoder lies at that azimuth, 1000 m away.
\<close>

theorem bearing_deg_reaches_360:
  "calculate_distances stub_get_geometry stub_lib ''100 Subject Way'' [''200 North Road''] 0 =
     (Inr \<lparr>batch_subject_address = ''100 Subject Way'',
           distances = [\<lparr>address = ''200 North Road'', distance_ft = 3280.8,
                         direction = ''N'', bearing_deg = 360\<rparr>],
           failed = []\<rparr>, 2)"
  by (simp add: calculate_distances_def stub_get_geometry_def stub_lib_def stub_shape_def
      stub_Inverse_def distance_and_direction_def py_fmod_def py_round1_def py_round_def
      compass_label_def names8_def Let_def)


theorem distance_and_direction_threshold_witness:
  "shape stub_lib \<lparr>pt_x = 0, pt_y = 0\<rparr> = Inr \<lparr>pt_x = 0, pt_y = 0\<rparr> \<and>
   shape stub_lib \<lparr>pt_x = 1, pt_y = 0\<rparr> = Inr \<lparr>pt_x = 1, pt_y = 0\<rparr> \<and>
   nearest_points stub_lib \<lparr>pt_x = 0, pt_y = 0\<rparr> \<lparr>pt_x = 1, pt_y = 0\<rparr>
     = Inr (\<lparr>pt_x = 0, pt_y = 0\<rparr>, \<lparr>pt_x = 1, pt_y = 0\<rparr>) \<and>
   Inverse stub_lib 0 0 0 1 = Inr \<lparr>s12 = 1000, azi1 = 90\<rparr> \<and>
   distance_and_direction stub_lib \<lparr>pt_x = 0, pt_y = 0\<rparr> \<lparr>pt_x = 1, pt_y = 0\<rparr> 1 8
     = Inr (1000, 90, ''E'') \<and>
   distance_and_direction stub_lib \<lparr>pt_x = 0, pt_y = 0\<rparr> \<lparr>pt_x = 1, pt_y = 0\<rparr> 2000 8
     = Inr (1000, 359.96, ''N'')"
proof -
  let ?A = "\<lparr>pt_x = 0, pt_y = 0\<rparr>" and ?B = "\<lparr>pt_x = 1, pt_y = 0\<rparr>"
  let ?near = "\<lparr>s12 = 1000, azi1 = 90\<rparr>" and ?rep = "\<lparr>s12 = 1000, azi1 = - 0.04\<rparr>"
  have h1: "shape stub_lib ?A = Inr ?A" and h2: "shape stub_lib ?B = Inr ?B"
    by (simp_all add: stub_lib_def stub_shape_def)
  have h3: "nearest_points stub_lib ?A ?B = Inr (?A, ?B)"
    by (simp add: stub_lib_def)
  have h4: "Inverse stub_lib (pt_y ?A) (pt_x ?A) (pt_y ?B) (pt_x ?B) = Inr ?near"
    by (simp add: stub_lib_def stub_Inverse_def)
  have r1: "representative_point stub_lib ?A = Inr ?A"
    and r2: "representative_point stub_lib ?B = Inr \<lparr>pt_x = - 1, pt_y = 0\<rparr>"
    by (simp_all add: stub_lib_def)
  have r3: "Inverse stub_lib (pt_y ?A) (pt_x ?A)
              (pt_y \<lparr>pt_x = - 1, pt_y = 0\<rparr>) (pt_x \<lparr>pt_x = - 1, pt_y = 0\<rparr>) = Inr ?rep"
    by (simp add: stub_lib_def stub_Inverse_def)
  from distance_and_direction_threshold [OF h1 h2 h3 h4, where t = 1 and n = 8]
  have a: "distance_and_direction stub_lib ?A ?B 1 8 = Inr (1000, 90, ''E'')"
    by (simp add: py_fmod_def compass_label_def py_round_def names8_def)
  from distance_and_direction_threshold
         [OF h1 h2 h3 h4, where t = 2000 and n = 8 and ?r1.0 = ?A
            and ?r2.0 = "\<lparr>pt_x = - 1, pt_y = 0\<rparr>" and rep = ?rep] r1 r2 r3
  have b: "distance_and_direction stub_lib ?A ?B 2000 8 = Inr (1000, 359.96, ''N'')"
    by (simp add: py_fmod_def compass_label_def py_round_def names8_def)
  from h1 h2 h3 h4 a b show ?thesis by simp
qed

text \<open>
  What the code does ensure for \<^verbatim>\<open>bearing_deg\<close>: the bearing before rounding is at least
  0 and below 360, and the rounded field lies between 0 and 360, both included.
\<close>

lemma py_round_bounds: "\<lfloor>x\<rfloor> \<le> py_round x" "py_round x \<le> \<lfloor>x\<rfloor> + 1"
  by (simp_all add: py_round_def Let_def)

lemma py_round1_range:
  assumes "0 \<le> x" and "x < 360"
  shows "0 \<le> py_round1 x" and "py_round1 x \<le> 360"
proof -
  from assms have "0 \<le> \<lfloor>x * 10\<rfloor>" and "\<lfloor>x * 10\<rfloor> \<le> 3599"
    by (simp_all add: floor_le_iff le_floor_iff)
  with py_round_bounds [of "x * 10"]
  have "0 \<le> py_round (x * 10)" and "py_round (x * 10) \<le> 3600" by linarith+
  then show "0 \<le> py_round1 x" and "py_round1 x \<le> 360"
    by (simp_all add: py_round1_def)
qed

lemma distance_and_direction_bearing:
  "distance_and_direction lib A B t n = Inr (d, bearing, dir) \<Longrightarrow> 0 \<le> bearing \<and> bearing < 360"
  by (auto simp: distance_and_direction_def azimuth_degrees_def Let_def py_fmod_range
           split: sum.splits prod.splits if_splits)

lemma distances_loop_bearing:
  "distances_loop gg lib sg addrs results fails w = ((rs, fs), w') \<Longrightarrow>
   \<forall>r \<in> set results. 0 \<le> bearing_deg r \<and> bearing_deg r \<le> 360 \<Longrightarrow>
   \<forall>r \<in> set rs. 0 \<le> bearing_deg r \<and> bearing_deg r \<le> 360"
proof (induction addrs arbitrary: results fails w)
  case Nil
  then show ?case by simp
next
  case (Cons a addrs)
  show ?case
  proof (cases "gg a w")
    case (Pair go w1)
    show ?thesis
    proof (cases go)
      case None
      with Cons.prems Pair show ?thesis by (auto dest: Cons.IH)
    next
      case (Some geometry)
      show ?thesis
      proof (cases "distance_and_direction lib sg geometry 1 8")
        case (Inl e)
        with Cons.prems Pair Some show ?thesis by (auto dest: Cons.IH)
      next
        case (Inr r)
        obtain d bearing dir where r: "r = (d, bearing, dir)" by (cases r)
        with Inr have "0 \<le> bearing \<and> bearing < 360"
          by (auto dest: distance_and_direction_bearing)
        then have b: "0 \<le> py_round1 bearing \<and> py_round1 bearing \<le> 360"
          by (simp add: py_round1_range)
        from Cons.prems(1) Pair Some Inr r have
          "distances_loop gg lib sg addrs
             (results @ [\<lparr>address = a, distance_ft = py_round1 (d * 3.28084),
                          direction = dir, bearing_deg = py_round1 bearing\<rparr>])
             fails w1 = ((rs, fs), w')"
          by simp
        from Cons.IH [OF this] Cons.prems(2) b show ?thesis by simp
      qed
    qed
  qed
qed

lemma calculate_distances_bearing_closed_range:
  assumes "fst (calculate_distances get_geometry lib subject surrounding w) = Inr batch"
    and "r \<in> set (distances batch)"
  shows "0 \<le> bearing_deg r \<and> bearing_deg r \<le> 360"
proof -
  from assms(1) obtain sg w1 where s: "get_geometry subject w = (Some sg, w1)"
    by (cases "get_geometry subject w")
       (auto simp: calculate_distances_def split: option.splits)
  obtain rs fs w2 where
    l: "distances_loop get_geometry lib sg surrounding [] [] w1 = ((rs, fs), w2)"
    by (metis surj_pair)
  from assms(1) s l have "distances batch = rs"
    by (auto simp: calculate_distances_def)
  with distances_loop_bearing [OF l] assms(2) show ?thesis by simp
qed

section \<open>Direction keywords\<close>

lemma starts_with_iff: "starts_with s p \<longleftrightarrow> (\<exists>suf. s = p @ suf)"
  by (induction s p rule: starts_with.induct) auto

lemma occurs_in_iff: "occurs_in p s \<longleftrightarrow> (\<exists>pre suf. s = pre @ p @ suf)"
proof (induction s)
  case Nil
  then show ?case by auto
next
  case (Cons c cs)
  show ?case
  proof
    assume "occurs_in p (c # cs)"
    then consider "starts_with (c # cs) p" | "occurs_in p cs" by auto
    then show "\<exists>pre suf. c # cs = pre @ p @ suf"
    proof cases
      case 1
      then obtain suf where "c # cs = p @ suf" by (auto simp: starts_with_iff)
      then have "c # cs = [] @ p @ suf" by simp
      then show ?thesis by blast
    next
      case 2
      with Cons.IH obtain pre suf where "cs = pre @ p @ suf" by blast
      then have "c # cs = (c # pre) @ p @ suf" by simp
      then show ?thesis by blast
    qed
  next
    assume "\<exists>pre suf. c # cs = pre @ p @ suf"
    then obtain pre suf where e: "c # cs = pre @ p @ suf" by blast
    show "occurs_in p (c # cs)"
    proof (cases pre)
      case Nil
      with e have "starts_with (c # cs) p" by (auto simp: starts_with_iff)
      then show ?thesis by simp
    next
      case (Cons a pre')
      with e have "cs = pre' @ p @ suf" by simp
      with Cons.IH have "occurs_in p cs" by blast
      then show ?thesis by simp
    qed
  qed
qed

lemma occurs_in_trans:
  assumes "occurs_in q s" and "occurs_in p q"
  shows "occurs_in p s"
proof -
  from assms obtain a b c d where "s = a @ q @ b" and "q = c @ p @ d"
    by (auto simp: occurs_in_iff)
  then have "s = (a @ c) @ p @ (d @ b)" by simp
  then show ?thesis unfolding occurs_in_iff by blast
qed

lemma first_direction_find:
  "first_direction ps t = map_option snd (find (\<lambda>pd. occurs_in (fst pd) t) ps)"
  by (induction ps) auto

lemma first_direction_Some:
  "first_direction ps t = Some d \<longleftrightarrow>
   (\<exists>i<length ps. occurs_in (fst (ps ! i)) t \<and> (\<forall>j<i. \<not> occurs_in (fst (ps ! j)) t) \<and>
                  d = snd (ps ! i))"
  (is "?l \<longleftrightarrow> ?r")
proof
  assume ?l
  then obtain x where "find (\<lambda>pd. occurs_in (fst pd) t) ps = Some x" and "d = snd x"
    by (auto simp: first_direction_find)
  then obtain i where "i < length ps" and "occurs_in (fst (ps ! i)) t" and "x = ps ! i"
    and "\<forall>j<i. \<not> occurs_in (fst (ps ! j)) t"
    by (auto simp: find_Some_iff)
  with \<open>d = snd x\<close> show ?r by blast
next
  assume ?r
  then obtain i where "i < length ps" and "occurs_in (fst (ps ! i)) t"
    and "\<forall>j<i. \<not> occurs_in (fst (ps ! j)) t" and d: "d = snd (ps ! i)"
    by blast
  then have "find (\<lambda>pd. occurs_in (fst pd) t) ps = Some (ps ! i)"
    unfolding find_Some_iff by blast
  with d show ?l by (simp add: first_direction_find)
qed

lemma first_direction_None:
  "first_direction ps t = None \<longleftrightarrow> (\<forall>i<length ps. \<not> occurs_in (fst (ps ! i)) t)"
proof -
  have "first_direction ps t = None \<longleftrightarrow> (\<forall>x \<in> set ps. \<not> occurs_in (fst x) t)"
    by (auto simp: first_direction_find find_None_iff)
  also have "\<dots> \<longleftrightarrow> (\<forall>i<length ps. \<not> occurs_in (fst (ps ! i)) t)"
    by (metis in_set_conv_nth)
  finally show ?thesis .
qed

lemma north_in: "occurs_in ''north'' ''northeast''" "occurs_in ''north'' ''northwest''"
  "occurs_in ''south'' ''southeast''" "occurs_in ''south'' ''southwest''"
  by simp_all

lemma extract_north:
  "occurs_in ''north'' (lower txt) \<Longrightarrow> extract_groundwater_direction txt = Some ''N''"
  by (simp add: extract_groundwater_direction_def direction_patterns_def)

lemma extract_south:
  "\<not> occurs_in ''north'' (lower txt) \<Longrightarrow> occurs_in ''south'' (lower txt) \<Longrightarrow>
   extract_groundwater_direction txt = Some ''S''"
  by (simp add: extract_groundwater_direction_def direction_patterns_def)

text \<open>
  Claim C10, as amended. The patterns are tried on the lower-cased message in the order
  north, south, east, west, northeast, northwest, southeast, southwest, ne, nw, se, sw,
  \<^verbatim>\<open>"n "\<close>, \<^verbatim>\<open>"e "\<close>, \<^verbatim>\<open>"s "\<close>, \<^verbatim>\<open>"w "\<close>, and the direction of the first pattern that
  occurs is returned (\<open>None\<close> when none occurs). So a message with the word northeast or
  northwest gives N; a message with the word southeast or southwest gives S, unless it
  also holds north, and then it gives N; none of them gives the ordinal of its word.
\<close>

theorem extract_groundwater_direction_first_match:
  "map fst direction_patterns =
     [''north'', ''south'', ''east'', ''west'', ''northeast'', ''northwest'', ''southeast'',
      ''southwest'', ''ne'', ''nw'', ''se'', ''sw'', ''n '', ''e '', ''s '', ''w ''] \<and>
   map snd direction_patterns =
     [''N'', ''S'', ''E'', ''W'', ''NE'', ''NW'', ''SE'', ''SW'',
      ''NE'', ''NW'', ''SE'', ''SW'', ''N'', ''E'', ''S'', ''W''] \<and>
   (\<forall>d. extract_groundwater_direction txt = Some d \<longleftrightarrow>
        (\<exists>i<length direction_patterns.
           occurs_in (fst (direction_patterns ! i)) (lower txt) \<and>
           (\<forall>j<i. \<not> occurs_in (fst (direction_patterns ! j)) (lower txt)) \<and>
           d = snd (direction_patterns ! i))) \<and>
   (extract_groundwater_direction txt = None \<longleftrightarrow>
        (\<forall>i<length direction_patterns.
           \<not> occurs_in (fst (direction_patterns ! i)) (lower txt))) \<and>
   (occurs_in ''northeast'' (lower txt) \<or> occurs_in ''northwest'' (lower txt) \<longrightarrow>
      extract_groundwater_direction txt = Some ''N'') \<and>
   (occurs_in ''southeast'' (lower txt) \<or> occurs_in ''southwest'' (lower txt) \<longrightarrow>
      extract_groundwater_direction txt =
        (if occurs_in ''north'' (lower txt) then Some ''N'' else Some ''S'')) \<and>
   (occurs_in ''northeast'' (lower txt) \<longrightarrow> extract_groundwater_direction txt \<noteq> Some ''NE'') \<and>
   (occurs_in ''northwest'' (lower txt) \<longrightarrow> extract_groundwater_direction txt \<noteq> Some ''NW'') \<and>
   (occurs_in ''southeast'' (lower txt) \<longrightarrow> extract_groundwater_direction txt \<noteq> Some ''SE'') \<and>
   (occurs_in ''southwest'' (lower txt) \<longrightarrow> extract_groundwater_direction txt \<noteq> Some ''SW'')"
proof -
  have 1: "map fst direction_patterns =
     [''north'', ''south'', ''east'', ''west'', ''northeast'', ''northwest'', ''southeast'',
      ''southwest'', ''ne'', ''nw'', ''se'', ''sw'', ''n '', ''e '', ''s '', ''w '']"
    and 2: "map snd direction_patterns =
     [''N'', ''S'', ''E'', ''W'', ''NE'', ''NW'', ''SE'', ''SW'',
      ''NE'', ''NW'', ''SE'', ''SW'', ''N'', ''E'', ''S'', ''W'']"
    by (simp_all add: direction_patterns_def)
  have 3: "\<forall>d. extract_groundwater_direction txt = Some d \<longleftrightarrow>
        (\<exists>i<length direction_patterns.
           occurs_in (fst (direction_patterns ! i)) (lower txt) \<and>
           (\<forall>j<i. \<not> occurs_in (fst (direction_patterns ! j)) (lower txt)) \<and>
           d = snd (direction_patterns ! i))"
    unfolding extract_groundwater_direction_def by (simp only: first_direction_Some) simp
  have 4: "extract_groundwater_direction txt = None \<longleftrightarrow>
        (\<forall>i<length direction_patterns.
           \<not> occurs_in (fst (direction_patterns ! i)) (lower txt))"
    unfolding extract_groundwater_direction_def by (simp only: first_direction_None)
  have n: "occurs_in ''northeast'' (lower txt) \<or> occurs_in ''northwest'' (lower txt) \<Longrightarrow>
      extract_groundwater_direction txt = Some ''N''"
    using north_in by (blast intro: extract_north occurs_in_trans)
  have s: "occurs_in ''southeast'' (lower txt) \<or> occurs_in ''southwest'' (lower txt) \<Longrightarrow>
      extract_groundwater_direction txt =
        (if occurs_in ''north'' (lower txt) then Some ''N'' else Some ''S'')"
  proof -
    assume "occurs_in ''southeast'' (lower txt) \<or> occurs_in ''southwest'' (lower txt)"
    with north_in have "occurs_in ''south'' (lower txt)" by (blast intro: occurs_in_trans)
    then show ?thesis by (simp add: extract_north extract_south)
  qed
  have 5: "occurs_in ''northeast'' (lower txt) \<longrightarrow> extract_groundwater_direction txt \<noteq> Some ''NE''"
    and 6: "occurs_in ''northwest'' (lower txt) \<longrightarrow> extract_groundwater_direction txt \<noteq> Some ''NW''"
    using n by auto
  have 7: "occurs_in ''southeast'' (lower txt) \<longrightarrow> extract_groundwater_direction txt \<noteq> Some ''SE''"
    and 8: "occurs_in ''southwest'' (lower txt) \<longrightarrow> extract_groundwater_direction txt \<noteq> Some ''SW''"
    using s by (auto split: if_splits)
  from 1 2 3 4 n s 5 6 7 8 show ?thesis by blast
qed

theorem extract_groundwater_direction_first_match_witness:
  "occurs_in ''southeast'' (lower ''Flows SouthEast'') \<and>
   extract_groundwater_direction ''Flows SouthEast'' = Some ''S'' \<and>
   extract_groundwater_direction ''Flows SouthEast'' \<noteq> Some ''SE''"
proof -
  have h: "occurs_in ''southeast'' (lower ''Flows SouthEast'')"
    and k: "\<not> occurs_in ''north'' (lower ''Flows SouthEast'')"
    by code_simp+
  from extract_groundwater_direction_first_match [of "''Flows SouthEast''"] h k
  show ?thesis by simp
qed

text \<open>
  Claim C10 as first stated fails: a message with the word southeast need not give S.
\<close>

theorem southeast_after_north_counterexample:
  "occurs_in ''southeast'' (lower ''north or southeast'') \<and>
   extract_groundwater_direction ''north or southeast'' = Some ''N'' \<and>
   extract_groundwater_direction ''north or southeast'' \<noteq> Some ''S''"
  by code_simp

section \<open>Address collection\<close>

text \<open>
  What \<^verbatim>\<open>split\<close> returns: putting the separator before every entry and concatenating
  gives the separator followed by the string, and no entry holds the separator.
\<close>

lemma split_on_nonempty: "split_on sep s \<noteq> []"
  by (induction s) (auto split: list.splits)

lemma split_on_concat:
  "concat (map (\<lambda>p. sep # p) (split_on sep s)) = sep # s"
  by (induction s) (auto split: list.splits simp: split_on_nonempty)

lemma split_on_no_sep: "p \<in> set (split_on sep s) \<Longrightarrow> sep \<notin> set p"
  by (induction s arbitrary: p) (auto split: list.splits if_splits)

lemma parse_addresses_filter:
  "parse_addresses q = filter (\<lambda>e. 10 < length e) (map strip (split_on (CHR '','') q))"
proof -
  have "(\<lambda>addr::string. addr \<noteq> [] \<and> 10 < length addr) = (\<lambda>e. 10 < length e)"
    by auto
  then show ?thesis by (simp add: parse_addresses_def)
qed

text \<open>
  Claim C6, as amended. Let the session have a main document and \<^verbatim>\<open>awaiting_addresses\<close>
  set, and let the message hold no trigger phrase of the surrounding section. The
  stripped message is split on commas and every entry is stripped; an entry survives
  exactly when it has more than 10 characters. If an entry survives, the survivors
  become \<^verbatim>\<open>surrounding_addresses\<close>, \<^verbatim>\<open>awaiting_addresses\<close> becomes false and
  \<^verbatim>\<open>awaiting_groundwater\<close> true. If none survives, the session is left as it was. No
  collaborator is called.
\<close>

theorem awaiting_addresses_step:
  assumes "main_document session \<noteq> None"
    and "awaiting_addresses session = Some True"
    and "\<not> list_ex (\<lambda>phrase. occurs_in phrase (lower (strip content)))
             (section_triggers (report_type session)
                (if report_type session = Some ''EDR'' then ''5.2.2'' else ''5.2.4''))"
  shows "parse_addresses (strip content) =
           filter (\<lambda>e. 10 < length e) (map strip (split_on (CHR '','') (strip content))) \<and>
         (parse_addresses (strip content) \<noteq> [] \<longrightarrow>
            fst (handle_intelligent_chat env content session w) =
              session\<lparr>surrounding_addresses := Some (parse_addresses (strip content)),
                      awaiting_addresses := Some False,
                      awaiting_groundwater := Some True\<rparr>) \<and>
         (parse_addresses (strip content) = [] \<longrightarrow>
            fst (handle_intelligent_chat env content session w) = session) \<and>
         snd (snd (handle_intelligent_chat env content session w)) = w"
proof -
  from assms(1) obtain main where m: "main_document session = Some main" by auto
  have h: "handle_intelligent_chat env content session w =
      (case collect_addresses session (strip content) of (session', out) \<Rightarrow> (session', out, w))"
    using m assms(2,3) by (simp add: handle_intelligent_chat_def Let_def)
  show ?thesis
    unfolding h by (simp add: collect_addresses_def Let_def parse_addresses_filter)
qed

theorem awaiting_addresses_step_witness:
  "main_document stub_session_addresses \<noteq> None \<and>
   awaiting_addresses stub_session_addresses = Some True \<and>
   parse_addresses (strip ''12 Main St, 200 North Road ,300 East Street'')
     = [''200 North Road'', ''300 East Street''] \<and>
   fst (handle_intelligent_chat stub_env ''12 Main St, 200 North Road ,300 East Street''
          stub_session_addresses 0) =
     stub_session_addresses\<lparr>surrounding_addresses := Some [''200 North Road'', ''300 East Street''],
                            awaiting_addresses := Some False,
                            awaiting_groundwater := Some True\<rparr>"
proof -
  let ?c = "''12 Main St, 200 North Road ,300 East Street''"
  have h1: "main_document stub_session_addresses \<noteq> None"
    and h2: "awaiting_addresses stub_session_addresses = Some True"
    by (simp_all add: stub_session_addresses_def)
  have h3: "\<not> list_ex (\<lambda>phrase. occurs_in phrase (lower (strip ?c)))
             (section_triggers (report_type stub_session_addresses)
                (if report_type stub_session_addresses = Some ''EDR'' then ''5.2.2'' else ''5.2.4''))"
    by code_simp
  have p: "parse_addresses (strip ?c) = [''200 North Road'', ''300 East Street'']"
    by code_simp
  from awaiting_addresses_step [OF h1 h2 h3, of stub_env 0] h1 h2 p
  show ?thesis by simp
qed

text \<open>
  Claim C6 as first stated fails: an entry of exactly 10 characters is not shorter than
  10 characters, yet it is discarded and the session stays where it was.
\<close>

theorem ten_character_entry_counterexample:
  "main_document stub_session_addresses \<noteq> None \<and>
   awaiting_addresses stub_session_addresses = Some True \<and>
   split_on (CHR '','') ''12 Main St'' = [''12 Main St''] \<and>
   \<not> length ''12 Main St'' < 10 \<and>
   fst (handle_intelligent_chat stub_env ''12 Main St'' stub_session_addresses 0)
     = stub_session_addresses \<and>
   surrounding_addresses stub_session_addresses = None \<and>
   awaiting_groundwater stub_session_addresses \<noteq> Some True"
proof -
  have h3: "\<not> list_ex (\<lambda>phrase. occurs_in phrase (lower (strip ''12 Main St'')))
             (section_triggers (report_type stub_session_addresses)
                (if report_type stub_session_addresses = Some ''EDR'' then ''5.2.2'' else ''5.2.4''))"
    by code_simp
  have p: "parse_addresses (strip ''12 Main St'') = []"
    by code_simp
  have "fst (handle_intelligent_chat stub_env ''12 Main St'' stub_session_addresses 0)
     = stub_session_addresses"
    using h3 p
    by (simp add: handle_intelligent_chat_def Let_def collect_addresses_def
        stub_session_addresses_def)
  moreover have "split_on (CHR '','') ''12 Main St'' = [''12 Main St'']" by simp
  ultimately show ?thesis by (simp add: stub_session_addresses_def)
qed

section \<open>Failure in the groundwater step\<close>

text \<open>
  An exception of the distance calculator, or of the generation call, is an exception
  of the \<^verbatim>\<open>try\<close> block.
\<close>

lemma distance_failure_raises:
  assumes "surrounding_addresses session = Some addrs"
    and "distance_calculator env (subject_address session) addrs w = (Inl e, w')"
  shows "generate_surrounding_body env session d w = (Inl e, [], w')"
  using assms by (simp add: generate_surrounding_body_def)

lemma generation_failure_raises:
  assumes "surrounding_addresses session = Some addrs"
    and "distance_calculator env (subject_address session) addrs w = (Inr distance_data, w1)"
    and "get_summarizer (report_type session)
           (if report_type session = Some ''EDR'' then ''5.2.2'' else ''5.2.4'') = Inr summarizer"
    and "\<And>content kwargs. fst (generate_section_streaming env summarizer content kwargs w1) = Inl e"
  shows "fst (generate_surrounding_body env session d w) = Inl e"
proof -
  have c: "fst (case generate_section_streaming env summarizer content kwargs w1 of
                  (Inl e, w2) \<Rightarrow> (Inl e, out, w2)
                | (Inr result, w2) \<Rightarrow> (Inr result, out, w2)) = Inl e"
    for content kwargs and out :: "string list"
    using assms(4) [of content kwargs]
    by (cases "generate_section_streaming env summarizer content kwargs w1")
       (auto split: sum.splits)
  show ?thesis
    using assms(1-3) by (simp add: generate_surrounding_body_def Let_def c)
qed

text \<open>
  Claim C8. Let the chat message be handled by the groundwater step (the session has a
  main document and \<^verbatim>\<open>awaiting_groundwater\<close> set, \<^verbatim>\<open>awaiting_addresses\<close> is not set and the
  message holds no trigger phrase) and hold a direction keyword. If the \<^verbatim>\<open>try\<close> block
  of the distance computation and the generation raises, the handler sends the error
  as its last message and sets \<^verbatim>\<open>awaiting_groundwater\<close> to false; nothing else in the
  session changes.
\<close>

theorem groundwater_failure_clears_flag:
  assumes "main_document session \<noteq> None"
    and "\<not> list_ex (\<lambda>phrase. occurs_in phrase (lower (strip content)))
             (section_triggers (report_type session)
                (if report_type session = Some ''EDR'' then ''5.2.2'' else ''5.2.4''))"
    and "awaiting_addresses session \<noteq> Some True"
    and "awaiting_groundwater session = Some True"
    and "extract_groundwater_direction (strip content) = Some d"
    and "generate_surrounding_body env session d w = (Inl e, out, w')"
  shows "handle_intelligent_chat env content session w =
           (session\<lparr>awaiting_groundwater := Some False\<rparr>,
            [''Using groundwater flow direction: '' @ d, ''Calculating distances...''] @ out
            @ [''Error generating Section ''
               @ (if report_type session = Some ''EDR'' then ''5.2.2'' else ''5.2.4'')
               @ '': '' @ e],
            w')"
proof -
  from assms(1) obtain main where m: "main_document session = Some main" by auto
  have "handle_intelligent_chat env content session w =
      handle_groundwater env session
        (if report_type session = Some ''EDR'' then ''5.2.2'' else ''5.2.4'') (strip content) w"
    using m assms(2,3,4) by (simp add: handle_intelligent_chat_def Let_def)
  with assms(5,6) show ?thesis
    by (simp add: handle_groundwater_def Let_def)
qed

theorem groundwater_failure_clears_flag_witness:
  "main_document stub_session_groundwater \<noteq> None \<and>
   awaiting_groundwater stub_session_groundwater = Some True \<and>
   extract_groundwater_direction (strip ''it flows North'') = Some ''N'' \<and>
   generate_surrounding_body stub_env stub_session_groundwater ''N'' 0
     = (Inl ''Could not geocode subject address: 1 Unknown Place'', [], 1) \<and>
   handle_intelligent_chat stub_env ''it flows North'' stub_session_groundwater 0 =
     (stub_session_groundwater\<lparr>awaiting_groundwater := Some False\<rparr>,
      [''Using groundwater flow direction: N'', ''Calculating distances...'',
       ''Error generating Section 5.2.2: Could not geocode subject address: 1 Unknown Place''],
      1)"
proof -
  let ?s = stub_session_groundwater
  have h1: "main_document ?s \<noteq> None"
    and h3: "awaiting_addresses ?s \<noteq> Some True"
    and h4: "awaiting_groundwater ?s = Some True"
    and rt: "report_type ?s = Some ''EDR''"
    by (simp_all add: stub_session_groundwater_def)
  have h2: "\<not> list_ex (\<lambda>phrase. occurs_in phrase (lower (strip ''it flows North'')))
             (section_triggers (report_type ?s)
                (if report_type ?s = Some ''EDR'' then ''5.2.2'' else ''5.2.4''))"
    by code_simp
  have h5: "extract_groundwater_direction (strip ''it flows North'') = Some ''N''"
    by code_simp
  have h6: "generate_surrounding_body stub_env ?s ''N'' 0
     = (Inl ''Could not geocode subject address: 1 Unknown Place'', [], 1)"
    by (simp add: generate_surrounding_body_def stub_env_def stub_session_groundwater_def
        calculate_distances_def stub_get_geometry_def)
  from groundwater_failure_clears_flag [OF h1 h2 h3 h4 h5 h6] rt h1 h4 h5 h6
  show ?thesis by simp
qed

section \<open>The two awaiting flags\<close>

text \<open>
  A chat message that is not handled by the groundwater step or the question path
  calls no collaborator: the world is left as it was.
\<close>

lemma chat_outside_groundwater_keeps_world:
  assumes "main_document session = None \<or>
           list_ex (\<lambda>phrase. occurs_in phrase (lower (strip content)))
             (section_triggers (report_type session)
                (if report_type session = Some ''EDR'' then ''5.2.2'' else ''5.2.4'')) \<or>
           awaiting_addresses session = Some True"
  shows "snd (snd (handle_intelligent_chat env content session w)) = w"
proof (cases "main_document session")
  case None
  then show ?thesis by (simp add: handle_intelligent_chat_def Let_def)
next
  case (Some main)
  let ?sec = "if report_type session = Some ''EDR'' then ''5.2.2'' else ''5.2.4''"
  show ?thesis
  proof (cases "list_ex (\<lambda>phrase. occurs_in phrase (lower (strip content)))
                  (section_triggers (report_type session) ?sec)")
    case True
    with Some show ?thesis
      by (simp add: handle_intelligent_chat_def Let_def split_beta)
  next
    case False
    with assms Some have "awaiting_addresses session = Some True" by simp
    with Some False show ?thesis
      by (simp add: handle_intelligent_chat_def Let_def split_beta)
  qed
qed

text \<open>
  Every handler keeps \<^const>\<open>flags_consistent\<close>: an upload touches neither flag nor the
  address list, a clear drops all three, and the chat handler sets a flag only on the
  side of the address list that the flag stands for.
\<close>

lemma flags_consistent_initial: "flags_consistent initial_session"
  by (simp add: flags_consistent_def initial_session_def)

lemma process_main_document_flags:
  assumes "process_main_document env rtype session doc w = (Inr session', out, w')"
  shows "surrounding_addresses session' = surrounding_addresses session \<and>
         awaiting_addresses session' = awaiting_addresses session \<and>
         awaiting_groundwater session' = awaiting_groundwater session"
proof -
  let ?sec = "if rtype = ''EDR'' then ''5.2.1'' else ''5.2.3''"
  from assms obtain summarizer where g: "get_summarizer (Some rtype) ?sec = Inr summarizer"
    by (cases "get_summarizer (Some rtype) ?sec")
       (simp_all add: process_main_document_def Let_def)
  let ?content = "if truthy (echo_summary doc)
                  then main_enhanced_context (formatted doc) (str_opt (echo_summary doc)) ?sec
                  else formatted doc"
  obtain r w1 where c: "generate_section_streaming env summarizer ?content None w = (r, w1)"
    by (cases "generate_section_streaming env summarizer ?content None w")
  show ?thesis
  proof (cases r)
    case (Inl e)
    with assms g c show ?thesis by (simp add: process_main_document_def Let_def)
  next
    case (Inr result)
    with assms g c show ?thesis
      by (cases result) (auto simp: process_main_document_def Let_def)
  qed
qed

lemma process_surrounding_document_flags:
  assumes "process_surrounding_document rtype session doc = (session', out)"
  shows "surrounding_addresses session' = surrounding_addresses session \<and>
         awaiting_addresses session' = awaiting_addresses session \<and>
         awaiting_groundwater session' = awaiting_groundwater session"
  using assms by (auto simp: process_surrounding_document_def Let_def)

lemma process_pdf_body_flags:
  assumes "process_pdf_body env message rtype session w = (Inr session', out, w')"
  shows "surrounding_addresses session' = surrounding_addresses session \<and>
         awaiting_addresses session' = awaiting_addresses session \<and>
         awaiting_groundwater session' = awaiting_groundwater session"
proof -
  note defs = process_pdf_body_def
  from assms obtain d where d: "upload_data message = Some d"
    by (cases "upload_data message") (simp_all add: defs)
  from assms d obtain pdf_bytes where p: "b64decode env d = Inr pdf_bytes"
    by (cases "b64decode env d") (simp_all add: defs)
  from assms d p obtain fname where f: "upload_filename message = Some fname"
    by (cases "upload_filename message") (simp_all add: defs)
  obtain x w1 where x: "extract_text env pdf_bytes fname w = (x, w1)"
    by (cases "extract_text env pdf_bytes fname w")
  from assms d p f x obtain raw where t: "x = Inr raw"
    by (cases x) (simp_all add: defs)
  show ?thesis
  proof (cases "strip raw = []")
    case True
    with assms d p f x t have "session' = session" by (simp add: defs)
    then show ?thesis by simp
  next
    case False
    with assms d p f x t obtain u where c: "create_service env rtype = Inr u"
      by (cases "create_service env rtype") (simp_all add: defs)
    obtain echo out_echo w2 where e: "lookup_echo env rtype (strip raw) w1 = (echo, out_echo, w2)"
      by (metis prod_cases3)
    obtain y w3 where y: "format_text env (rtype = ''EDR'') (strip raw) w2 = (y, w3)"
      by (cases "format_text env (rtype = ''EDR'') (strip raw) w2")
    from assms d p f x t False c e y obtain formatted_text where ft: "y = Inr formatted_text"
      by (cases y) (simp_all add: defs)
    let ?doc = "\<lparr>filename = fname, doc_text = strip raw,
                 formatted = formatted_text, echo_summary = echo\<rparr>"
    show ?thesis
    proof (cases "main_document session = None")
      case True
      obtain r out1 w4 where m: "process_main_document env rtype session ?doc w3 = (r, out1, w4)"
        by (metis prod_cases3)
      with assms d p f x t False c e y ft True have "r = Inr session'"
        by (simp add: defs)
      with m show ?thesis by (auto dest: process_main_document_flags)
    next
      case nm: False
      obtain s1 out1 where m: "process_surrounding_document rtype session ?doc = (s1, out1)"
        by (cases "process_surrounding_document rtype session ?doc")
      with assms d p f x t False c e y ft nm have "s1 = session'"
        by (simp add: defs)
      with m show ?thesis by (auto dest: process_surrounding_document_flags)
    qed
  qed
qed

lemma process_pdf_flags:
  assumes "process_pdf env message session w = (session', out, w')"
  shows "surrounding_addresses session' = surrounding_addresses session \<and>
         awaiting_addresses session' = awaiting_addresses session \<and>
         awaiting_groundwater session' = awaiting_groundwater session"
proof -
  let ?rt = "case reportType message of None \<Rightarrow> ''EDR'' | Some r \<Rightarrow> r"
  let ?s0 = "session\<lparr>report_type := Some ?rt\<rparr>"
  obtain r out1 w1 where b: "process_pdf_body env message ?rt ?s0 w = (r, out1, w1)"
    by (metis prod_cases3)
  show ?thesis
  proof (cases r)
    case (Inl e)
    with assms b show ?thesis by (auto simp: process_pdf_def Let_def)
  next
    case (Inr s1)
    with assms b have "session' = s1" by (auto simp: process_pdf_def Let_def)
    with process_pdf_body_flags [of env message ?rt ?s0 w s1 out1 w1] b Inr
    show ?thesis by simp
  qed
qed

lemma process_pdf_consistent:
  assumes "flags_consistent session"
    and "process_pdf env message session w = (session', out, w')"
  shows "flags_consistent session'"
  using assms(1) process_pdf_flags [OF assms(2)] by (simp add: flags_consistent_def)

lemma request_surrounding_section_consistent:
  assumes "flags_consistent session"
  shows "flags_consistent (fst (request_surrounding_section session sec))"
  using assms
  by (simp add: request_surrounding_section_def flags_consistent_def split: option.split)

lemma collect_addresses_consistent:
  assumes "flags_consistent session"
  shows "flags_consistent (fst (collect_addresses session q))"
  using assms
  by (simp add: collect_addresses_def flags_consistent_def Let_def)

lemma handle_groundwater_consistent:
  assumes "flags_consistent session"
    and "handle_groundwater env session sec q w = (session', out, w')"
  shows "flags_consistent session'"
  using assms
  by (auto simp: handle_groundwater_def flags_consistent_def Let_def
           split: option.splits sum.splits prod.splits)

lemma answer_question_session:
  "answer_question env session main q w = (session', out, w') \<Longrightarrow> session' = session"
  by (auto simp: answer_question_def split: sum.splits prod.splits)

lemma handle_intelligent_chat_consistent:
  assumes "flags_consistent session"
    and "handle_intelligent_chat env content session w = (session', out, w')"
  shows "flags_consistent session'"
proof (cases "main_document session")
  case None
  with assms show ?thesis by (simp add: handle_intelligent_chat_def Let_def)
next
  case (Some main)
  let ?sec = "if report_type session = Some ''EDR'' then ''5.2.2'' else ''5.2.4''"
  let ?q = "strip content"
  consider
    (trigger) "list_ex (\<lambda>phrase. occurs_in phrase (lower ?q))
                 (section_triggers (report_type session) ?sec)"
  | (addresses) "\<not> list_ex (\<lambda>phrase. occurs_in phrase (lower ?q))
                   (section_triggers (report_type session) ?sec)"
      "awaiting_addresses session = Some True"
  | (groundwater) "\<not> list_ex (\<lambda>phrase. occurs_in phrase (lower ?q))
                     (section_triggers (report_type session) ?sec)"
      "awaiting_addresses session \<noteq> Some True" "awaiting_groundwater session = Some True"
  | (question) "\<not> list_ex (\<lambda>phrase. occurs_in phrase (lower ?q))
                  (section_triggers (report_type session) ?sec)"
      "awaiting_addresses session \<noteq> Some True" "awaiting_groundwater session \<noteq> Some True"
    by blast
  then show ?thesis
  proof cases
    case trigger
    with assms(2) Some have "session' = fst (request_surrounding_section session ?sec)"
      by (simp add: handle_intelligent_chat_def Let_def split_beta)
    with assms(1) show ?thesis by (simp add: request_surrounding_section_consistent)
  next
    case addresses
    with assms(2) Some have "session' = fst (collect_addresses session ?q)"
      by (simp add: handle_intelligent_chat_def Let_def split_beta)
    with assms(1) show ?thesis by (simp add: collect_addresses_consistent)
  next
    case groundwater
    with assms(2) Some have "handle_groundwater env session ?sec ?q w = (session', out, w')"
      by (simp add: handle_intelligent_chat_def Let_def)
    with assms(1) show ?thesis by (rule handle_groundwater_consistent)
  next
    case question
    with assms(2) Some have "answer_question env session main ?q w = (session', out, w')"
      by (simp add: handle_intelligent_chat_def Let_def)
    then have "session' = session" by (rule answer_question_session)
    with assms(1) show ?thesis by simp
  qed
qed

lemma dispatch_consistent:
  assumes "flags_consistent session"
    and "dispatch env frame session w = (session', out, w')"
  shows "flags_consistent session'"
proof (cases frame)
  case (FileUpload message)
  with assms show ?thesis by (auto intro: process_pdf_consistent)
next
  case (Chat content)
  with assms show ?thesis by (auto intro: handle_intelligent_chat_consistent)
next
  case ClearSession
  with assms show ?thesis by (auto simp: clear_session_def flags_consistent_initial)
next
  case OtherType
  with assms show ?thesis by simp
next
  case Malformed
  with assms show ?thesis by simp
qed

lemma run_consistent:
  "flags_consistent session \<Longrightarrow> run env frames session w = (session', w') \<Longrightarrow>
   flags_consistent session'"
proof (induction frames arbitrary: session w)
  case Nil
  then show ?case by simp
next
  case (Cons frame frames)
  obtain s1 out w1 where d: "dispatch env frame session w = (s1, out, w1)"
    by (metis prod_cases3)
  with Cons.prems(1) have "flags_consistent s1" by (rule dispatch_consistent)
  moreover from Cons.prems(2) d have "run env frames s1 w1 = (session', w')" by simp
  ultimately show ?case by (rule Cons.IH)
qed

text \<open>
  Claim C9. After any sequence of inbound frames (uploads, chat messages, clears, and
  frames the loop ignores), from the initial session and for any behaviour of the
  collaborators, \<^verbatim>\<open>awaiting_addresses\<close> and \<^verbatim>\<open>awaiting_groundwater\<close> are not both true.
\<close>

theorem awaiting_flags_exclusive:
  "\<not> (awaiting_addresses (fst (websocket_endpoint env frames w)) = Some True \<and>
      awaiting_groundwater (fst (websocket_endpoint env frames w)) = Some True)"
proof -
  obtain s w' where r: "run env frames initial_session w = (s, w')"
    by (cases "run env frames initial_session w")
  from flags_consistent_initial r have "flags_consistent s" by (rule run_consistent)
  then have "\<not> (awaiting_addresses s = Some True \<and> awaiting_groundwater s = Some True)"
    by (auto simp: flags_consistent_def)
  with r show ?thesis by (simp add: websocket_endpoint_def)
qed

theorem awaiting_flags_exclusive_witness:
  "\<not> (awaiting_addresses (fst (websocket_endpoint stub_env
          [FileUpload \<lparr>reportType = Some ''EDR'', upload_data = Some ''main'',
                        upload_filename = Some ''subject.pdf''\<rparr>,
           FileUpload \<lparr>reportType = Some ''EDR'', upload_data = Some ''near'',
                        upload_filename = Some ''neighbour.pdf''\<rparr>,
           Chat ''generate 5.2.2'',
           Chat ''200 North Road, 300 East Street''] 0)) = Some True \<and>
      awaiting_groundwater (fst (websocket_endpoint stub_env
          [FileUpload \<lparr>reportType = Some ''EDR'', upload_data = Some ''main'',
                        upload_filename = Some ''subject.pdf''\<rparr>,
           FileUpload \<lparr>reportType = Some ''EDR'', upload_data = Some ''near'',
                        upload_filename = Some ''neighbour.pdf''\<rparr>,
           Chat ''generate 5.2.2'',
           Chat ''200 North Road, 300 East Street''] 0)) = Some True) \<and>
   awaiting_groundwater (fst (websocket_endpoint stub_env
          [FileUpload \<lparr>reportType = Some ''EDR'', upload_data = Some ''main'',
                        upload_filename = Some ''subject.pdf''\<rparr>,
           FileUpload \<lparr>reportType = Some ''EDR'', upload_data = Some ''near'',
                        upload_filename = Some ''neighbour.pdf''\<rparr>,
           Chat ''generate 5.2.2'',
           Chat ''200 North Road, 300 East Street''] 0)) = Some True"
proof -
  let ?frames = "[FileUpload \<lparr>reportType = Some ''EDR'', upload_data = Some ''main'',
                        upload_filename = Some ''subject.pdf''\<rparr>,
           FileUpload \<lparr>reportType = Some ''EDR'', upload_data = Some ''near'',
                        upload_filename = Some ''neighbour.pdf''\<rparr>,
           Chat ''generate 5.2.2'',
           Chat ''200 North Road, 300 East Street'']"
  have g: "awaiting_groundwater (fst (websocket_endpoint stub_env ?frames 0)) = Some True"
    by code_simp
  from awaiting_flags_exclusive [of stub_env ?frames 0] g show ?thesis by simp
qed

end
